theory Spec2Isabelle
  imports Complex_Main "HOL-Library.AList"
begin

section \<open>Scene objects of the graphics library\<close>

text \<open>
  The three services work on objects of the graphics library that are shared by reference:
  the same mesh is held by the scene graph, by a loading chunk and by the resource registry.
  The objects therefore live in a store indexed by references, and every service reads and
  writes that store.  Only the fields the services touch are kept.  Numbers that the source
  keeps as JavaScript numbers are natural numbers where they count things (bytes, chunks,
  array lengths), integers where the source guards against going below zero, and reals for
  distances, frame rates and ratios (floating-point rounding is not modelled).
\<close>

type_synonym ref = nat

datatype attribute =
    BufferAttribute nat nat
  | InterleavedBufferAttribute nat

fun attr_count :: "attribute \<Rightarrow> nat" where
  "attr_count (BufferAttribute c b) = c"
| "attr_count (InterleavedBufferAttribute c) = c"

record index_buffer =
  index_values :: "nat list"
  index_bytesPerElement :: nat

definition index_count :: "index_buffer \<Rightarrow> nat" where
  "index_count ix = length (index_values ix)"

definition index_byteLength :: "index_buffer \<Rightarrow> nat" where
  "index_byteLength ix = length (index_values ix) * index_bytesPerElement ix"

record geometry_data =
  geo_uuid :: string
  attributes :: "(string \<times> attribute) list"
  geo_index :: "index_buffer option"

datatype material_class = MeshStandardMaterial | MeshBasicMaterial | OtherMaterial

record material_data =
  mat_class :: material_class
  color :: nat
  transparent :: bool
  opacity :: real

record image_data =
  width :: "nat option"
  height :: "nat option"

datatype node_class = MeshClass | SceneClass | LightClass | LODClass | CameraClass | Object3DClass

datatype material_slot = NoMaterial | SingleMaterial ref | MaterialArray "ref list"

record object3d =
  obj_class :: node_class
  name :: string
  uuid :: string
  parent :: "ref option"
  children :: "ref list"
  visible :: bool
  position :: "real \<times> real \<times> real"
  geometry :: "ref option"
  material :: material_slot
  isLOD :: bool
  levels :: "(ref \<times> real) list"

datatype three =
    Geometry geometry_data
  | Material material_data
  | Texture "image_data option"
  | Object3D object3d

text \<open>
  \<open>disposed\<close> collects the references on which the library's \<open>dispose()\<close> has been
  called; \<open>next_ref\<close> is the next free reference, used when an object is constructed.
\<close>

record heap =
  objs :: "ref \<Rightarrow> three option"
  disposed :: "ref set"
  next_ref :: nat

definition node_of :: "heap \<Rightarrow> ref \<Rightarrow> object3d option" where
  "node_of h r = (case objs h r of Some (Object3D n) \<Rightarrow> Some n | _ \<Rightarrow> None)"

definition is_class :: "heap \<Rightarrow> node_class \<Rightarrow> ref \<Rightarrow> bool" where
  "is_class h c r = (case node_of h r of Some n \<Rightarrow> obj_class n = c | None \<Rightarrow> False)"

definition isMesh :: "heap \<Rightarrow> ref \<Rightarrow> bool" where
  "isMesh h r = is_class h MeshClass r"

definition set_node :: "ref \<Rightarrow> object3d \<Rightarrow> heap \<Rightarrow> heap" where
  "set_node r n h = h\<lparr>objs := (objs h)(r \<mapsto> Object3D n)\<rparr>"

definition set_visible :: "ref \<Rightarrow> bool \<Rightarrow> heap \<Rightarrow> heap" where
  "set_visible r v h =
     (case node_of h r of Some n \<Rightarrow> set_node r (n\<lparr>visible := v\<rparr>) h | None \<Rightarrow> h)"

definition is_visible :: "heap \<Rightarrow> ref \<Rightarrow> bool" where
  "is_visible h r = (case node_of h r of Some n \<Rightarrow> visible n | None \<Rightarrow> False)"

definition call_dispose :: "ref \<Rightarrow> heap \<Rightarrow> heap" where
  "call_dispose r h = h\<lparr>disposed := insert r (disposed h)\<rparr>"

text \<open>
  \<open>Object3D.remove\<close>: the child is taken out of the parent's child list and its parent
  pointer is cleared; nothing happens when it is not among the children.
\<close>

definition remove_child :: "ref \<Rightarrow> ref \<Rightarrow> heap \<Rightarrow> heap" where
  "remove_child p c h =
     (case node_of h p of
        None \<Rightarrow> h
      | Some pn \<Rightarrow>
          if c \<in> set (children pn) then
            (let h1 = set_node p (pn\<lparr>children := remove1 c (children pn)\<rparr>) h
             in case node_of h1 c of
                  None \<Rightarrow> h1
                | Some cn \<Rightarrow> set_node c (cn\<lparr>parent := None\<rparr>) h1)
          else h)"

text \<open>\<open>Object3D.clear\<close>: every child loses its parent and the child list becomes empty.\<close>

definition clear_children :: "ref \<Rightarrow> heap \<Rightarrow> heap" where
  "clear_children p h =
     (case node_of h p of
        None \<Rightarrow> h
      | Some pn \<Rightarrow>
          (let h1 = fold (\<lambda>c hh. case node_of hh c of
                                   None \<Rightarrow> hh
                                 | Some cn \<Rightarrow> set_node c (cn\<lparr>parent := None\<rparr>) hh)
                         (children pn) h
           in case node_of h1 p of
                None \<Rightarrow> h1
              | Some pn1 \<Rightarrow> set_node p (pn1\<lparr>children := []\<rparr>) h1))"

text \<open>
  \<open>Object3D.traverse\<close> visits an object and then its descendants, depth first.  The
  recursion follows child references through the store, so it carries a depth bound; callers
  pass \<open>next_ref\<close>, which bounds the depth of every tree whose nodes are allocated.
\<close>

fun traverse :: "nat \<Rightarrow> heap \<Rightarrow> ref \<Rightarrow> ref list" where
  "traverse 0 h r = []"
| "traverse (Suc k) h r =
     (case node_of h r of
        None \<Rightarrow> []
      | Some n \<Rightarrow> r # concat (map (traverse k h) (children n)))"

definition traverse_all :: "heap \<Rightarrow> ref \<Rightarrow> ref list" where
  "traverse_all h r = traverse (next_ref h) h r"

section \<open>Resource registry\<close>

datatype resource_type = RGeometry | RMaterial | RTexture | RMesh | RScene

record ResourceInfo =
  res_id :: string
  res_type :: resource_type
  res_size :: nat
  createdAt :: int
  lastUsed :: int
  refCount :: int

record DisposalOptions =
  opt_force :: bool
  opt_maxAge :: int
  opt_minRefCount :: int

text \<open>
  The two \<open>Map\<close>s are association lists updated with \<open>AList.update\<close> (a present key keeps
  its place, a new key goes to the end, as in a JavaScript \<open>Map\<close>); the \<open>Set\<close> is a list
  without repetitions in insertion order.
\<close>

record ResourceManagerService =
  resources :: "(string \<times> ResourceInfo) list"
  resourceObjects :: "(string \<times> ref) list"
  disposalQueue :: "string list"
  autoCleanupInterval :: "nat option"
  isAutoCleanupEnabled :: bool

definition set_add :: "'a \<Rightarrow> 'a list \<Rightarrow> 'a list" where
  "set_add x xs = (if x \<in> set xs then xs else xs @ [x])"

definition set_delete :: "'a \<Rightarrow> 'a list \<Rightarrow> 'a list" where
  "set_delete x xs = removeAll x xs"

record registry =
  store :: heap
  rm :: ResourceManagerService

definition type_name :: "resource_type \<Rightarrow> string" where
  "type_name t = (case t of RGeometry \<Rightarrow> ''geometry'' | RMaterial \<Rightarrow> ''material''
     | RTexture \<Rightarrow> ''texture'' | RMesh \<Rightarrow> ''mesh'' | RScene \<Rightarrow> ''scene'')"

text \<open>
  \<open>generateResourceId\<close> joins the type name with the clock and a random suffix; the
  clock-and-random part is supplied by the caller of the model.
\<close>

definition generateResourceId :: "resource_type \<Rightarrow> string \<Rightarrow> string" where
  "generateResourceId t stamp = type_name t @ ''_'' @ stamp"

definition or_default :: "nat option \<Rightarrow> nat \<Rightarrow> nat" where
  "or_default v d = (case v of None \<Rightarrow> d | Some n \<Rightarrow> if n = 0 then d else n)"

definition attribute_bytes :: "attribute \<Rightarrow> nat" where
  "attribute_bytes a = (case a of BufferAttribute c b \<Rightarrow> b | InterleavedBufferAttribute c \<Rightarrow> 0)"

definition geometry_bytes :: "geometry_data \<Rightarrow> nat" where
  "geometry_bytes g =
     sum_list (map (\<lambda>kv. attribute_bytes (snd kv)) (attributes g))
     + (case geo_index g of None \<Rightarrow> 0 | Some ix \<Rightarrow> index_byteLength ix)"

definition estimateResourceSize :: "heap \<Rightarrow> ref \<Rightarrow> resource_type \<Rightarrow> nat" where
  "estimateResourceSize h r t =
     (case t of
        RGeometry \<Rightarrow> (case objs h r of Some (Geometry g) \<Rightarrow> geometry_bytes g | _ \<Rightarrow> 0)
      | RTexture \<Rightarrow>
          (case objs h r of
             Some (Texture (Some img)) \<Rightarrow> or_default (width img) 512 * or_default (height img) 512 * 4
           | _ \<Rightarrow> 0)
      | RMaterial \<Rightarrow> 1024
      | RMesh \<Rightarrow> 512
      | RScene \<Rightarrow> 256)"

text \<open>
  \<open>registerResource (resource, type, id?)\<close>.  \<open>id || generateResourceId(type)\<close> takes the
  generated id when the id is missing or the empty string.  \<open>now\<close> is \<open>Date.now()\<close>.
\<close>

definition registerResource ::
  "ref \<Rightarrow> resource_type \<Rightarrow> string option \<Rightarrow> int \<Rightarrow> string \<Rightarrow> registry \<Rightarrow> string \<times> registry" where
  "registerResource resource t ido now stamp w =
     (let resourceId = (case ido of None \<Rightarrow> generateResourceId t stamp
                        | Some s \<Rightarrow> if s = [] then generateResourceId t stamp else s);
          info = \<lparr>res_id = resourceId, res_type = t,
                  res_size = estimateResourceSize (store w) resource t,
                  createdAt = now, lastUsed = now, refCount = 1\<rparr>
      in (resourceId,
          w\<lparr>rm := (rm w)\<lparr>resources := AList.update resourceId info (resources (rm w)),
                          resourceObjects := AList.update resourceId resource (resourceObjects (rm w))\<rparr>\<rparr>))"

definition addReference :: "string \<Rightarrow> int \<Rightarrow> registry \<Rightarrow> registry" where
  "addReference resourceId now w =
     (case map_of (resources (rm w)) resourceId of
        None \<Rightarrow> w
      | Some info \<Rightarrow>
          w\<lparr>rm := (rm w)\<lparr>resources :=
               AList.update resourceId (info\<lparr>refCount := refCount info + 1, lastUsed := now\<rparr>)
                 (resources (rm w))\<rparr>\<rparr>)"

definition removeReference :: "string \<Rightarrow> registry \<Rightarrow> registry" where
  "removeReference resourceId w =
     (case map_of (resources (rm w)) resourceId of
        None \<Rightarrow> w
      | Some info \<Rightarrow>
          (let info' = info\<lparr>refCount := max 0 (refCount info - 1)\<rparr>;
               m = (rm w)\<lparr>resources := AList.update resourceId info' (resources (rm w))\<rparr>
           in if refCount info' = 0
              then w\<lparr>rm := m\<lparr>disposalQueue := set_add resourceId (disposalQueue m)\<rparr>\<rparr>
              else w\<lparr>rm := m\<rparr>))"

definition touchResource :: "string \<Rightarrow> int \<Rightarrow> registry \<Rightarrow> registry" where
  "touchResource resourceId now w =
     (case map_of (resources (rm w)) resourceId of
        None \<Rightarrow> w
      | Some info \<Rightarrow>
          w\<lparr>rm := (rm w)\<lparr>resources :=
               AList.update resourceId (info\<lparr>lastUsed := now\<rparr>) (resources (rm w))\<rparr>\<rparr>)"

definition material_refs :: "material_slot \<Rightarrow> ref list" where
  "material_refs m = (case m of NoMaterial \<Rightarrow> [] | SingleMaterial r \<Rightarrow> [r] | MaterialArray rs \<Rightarrow> rs)"

text \<open>
  \<open>disposeMesh\<close>: dispose the mesh's geometry, dispose its material or each material of its
  material array, and detach the mesh from its parent.
\<close>

definition disposeMesh :: "ref \<Rightarrow> heap \<Rightarrow> heap" where
  "disposeMesh m h =
     (case node_of h m of
        None \<Rightarrow> h
      | Some n \<Rightarrow>
          (let h1 = (case geometry n of None \<Rightarrow> h | Some g \<Rightarrow> call_dispose g h);
               h2 = fold call_dispose (material_refs (material n)) h1
           in case parent n of None \<Rightarrow> h2 | Some p \<Rightarrow> remove_child p m h2))"

text \<open>
  \<open>disposeScene\<close>: collect the objects of the scene by traversal, walk them in reverse
  (children first), dispose meshes, detach lights, then clear the scene.
\<close>

definition disposeSceneObject :: "ref \<Rightarrow> heap \<Rightarrow> heap" where
  "disposeSceneObject r h =
     (if isMesh h r then disposeMesh r h
      else if is_class h LightClass r then
        (case node_of h r of
           None \<Rightarrow> h
         | Some n \<Rightarrow> (case parent n of None \<Rightarrow> h | Some p \<Rightarrow> remove_child p r h))
      else h)"

definition disposeScene :: "ref \<Rightarrow> heap \<Rightarrow> heap" where
  "disposeScene s h =
     clear_children s (fold disposeSceneObject (rev (traverse_all h s)) h)"

definition teardown :: "resource_type \<Rightarrow> ref \<Rightarrow> heap \<Rightarrow> heap" where
  "teardown t r h =
     (case t of
        RGeometry \<Rightarrow> (case objs h r of Some (Geometry g) \<Rightarrow> call_dispose r h | _ \<Rightarrow> h)
      | RMaterial \<Rightarrow> (case objs h r of Some (Material m) \<Rightarrow> call_dispose r h | _ \<Rightarrow> h)
      | RTexture \<Rightarrow> (case objs h r of Some (Texture i) \<Rightarrow> call_dispose r h | _ \<Rightarrow> h)
      | RMesh \<Rightarrow> (if isMesh h r then disposeMesh r h else h)
      | RScene \<Rightarrow> (if is_class h SceneClass r then disposeScene r h else h))"

text \<open>
  \<open>disposeResource (resourceId, force = false)\<close> returns whether the resource was disposed.
  The library's \<open>dispose\<close>, \<open>remove\<close> and \<open>clear\<close> are taken not to throw, so the
  \<open>catch\<close> branch, which returns false and leaves the maps as they are, has no counterpart.
\<close>

definition disposeResource :: "string \<Rightarrow> bool \<Rightarrow> registry \<Rightarrow> bool \<times> registry" where
  "disposeResource resourceId force w =
     (case (map_of (resources (rm w)) resourceId, map_of (resourceObjects (rm w)) resourceId) of
        (Some info, Some resource) \<Rightarrow>
          if \<not> force \<and> refCount info > 0 then (False, w)
          else (True,
                w\<lparr>store := teardown (res_type info) resource (store w),
                  rm := (rm w)\<lparr>resources := AList.delete resourceId (resources (rm w)),
                                resourceObjects := AList.delete resourceId (resourceObjects (rm w)),
                                disposalQueue := set_delete resourceId (disposalQueue (rm w))\<rparr>\<rparr>)
      | _ \<Rightarrow> (False, w))"

text \<open>
  Loops that call \<open>disposeResource\<close> for each id of a list and count the successes:
  \<open>processDisposalQueue\<close> walks the queue, \<open>cleanup\<close> and \<open>disposeAll\<close> walk the ids they
  collected beforehand.
\<close>

fun disposeEach :: "bool \<Rightarrow> string list \<Rightarrow> registry \<Rightarrow> nat \<times> registry" where
  "disposeEach force [] w = (0, w)"
| "disposeEach force (i # is) w =
     (let (ok, w1) = disposeResource i force w;
          (n, w2) = disposeEach force is w1
      in ((if ok then 1 else 0) + n, w2))"

definition processDisposalQueue :: "registry \<Rightarrow> nat \<times> registry" where
  "processDisposalQueue w = disposeEach False (disposalQueue (rm w)) w"

definition cleanup :: "DisposalOptions \<Rightarrow> int \<Rightarrow> registry \<Rightarrow> nat \<times> registry" where
  "cleanup options now w =
     (let toDispose =
            map fst (filter (\<lambda>(resourceId, info).
                       opt_force options \<or>
                       (refCount info \<le> opt_minRefCount options \<and>
                        now - lastUsed info > opt_maxAge options))
                     (resources (rm w)))
      in disposeEach (opt_force options) toDispose w)"

definition default_options :: DisposalOptions where
  "default_options = \<lparr>opt_force = False, opt_maxAge = 5 * 60 * 1000, opt_minRefCount = 0\<rparr>"

definition disposeAll :: "registry \<Rightarrow> registry" where
  "disposeAll w = snd (disposeEach True (map fst (resources (rm w))) w)"

definition disableAutoCleanup :: "registry \<Rightarrow> registry" where
  "disableAutoCleanup w = w\<lparr>rm := (rm w)\<lparr>autoCleanupInterval := None, isAutoCleanupEnabled := False\<rparr>\<rparr>"

definition enableAutoCleanup :: "nat \<Rightarrow> registry \<Rightarrow> registry" where
  "enableAutoCleanup intervalMs w =
     (let w1 = (if isAutoCleanupEnabled (rm w) then disableAutoCleanup w else w)
      in w1\<lparr>rm := (rm w1)\<lparr>isAutoCleanupEnabled := True, autoCleanupInterval := Some intervalMs\<rparr>\<rparr>)"

text \<open>The body of the auto-cleanup timer: \<open>cleanup\<close> followed by \<open>processDisposalQueue\<close>.\<close>

definition autoCleanupTick :: "DisposalOptions \<Rightarrow> int \<Rightarrow> registry \<Rightarrow> registry" where
  "autoCleanupTick options now w = snd (processDisposalQueue (snd (cleanup options now w)))"

definition getResourceInfo :: "registry \<Rightarrow> string \<Rightarrow> ResourceInfo option" where
  "getResourceInfo w resourceId = map_of (resources (rm w)) resourceId"

record ResourceStats =
  totalResources :: nat
  totalSize :: nat
  byType :: "(resource_type \<times> nat \<times> nat) list"
  queuedForDisposal :: nat

definition bump_type :: "resource_type \<Rightarrow> nat \<Rightarrow> (resource_type \<times> nat \<times> nat) list
    \<Rightarrow> (resource_type \<times> nat \<times> nat) list" where
  "bump_type t sz tab =
     (case map_of tab t of
        None \<Rightarrow> AList.update t (1, sz) tab
      | Some (c, s) \<Rightarrow> AList.update t (c + 1, s + sz) tab)"

definition getResourceStats :: "registry \<Rightarrow> ResourceStats" where
  "getResourceStats w =
     \<lparr>totalResources = length (resources (rm w)),
      totalSize = sum_list (map (\<lambda>kv. res_size (snd kv)) (resources (rm w))),
      byType = fold (\<lambda>kv tab. bump_type (res_type (snd kv)) (res_size (snd kv)) tab)
                    (resources (rm w)) [],
      queuedForDisposal = length (disposalQueue (rm w))\<rparr>"

definition rm_dispose :: "registry \<Rightarrow> registry" where
  "rm_dispose w =
     (let w1 = disposeAll (disableAutoCleanup w)
      in w1\<lparr>rm := (rm w1)\<lparr>resources := [], resourceObjects := [], disposalQueue := []\<rparr>\<rparr>)"

definition empty_heap :: heap where
  "empty_heap = \<lparr>objs = (\<lambda>r. None), disposed = {}, next_ref = 0\<rparr>"

definition new_manager :: ResourceManagerService where
  "new_manager = \<lparr>resources = [], resourceObjects = [], disposalQueue = [],
                  autoCleanupInterval = None, isAutoCleanupEnabled = False\<rparr>"

text \<open>
  A call of the registry's public interface, with the clock value the call reads, and the
  effect of a sequence of calls.
\<close>

datatype rm_call =
    Register ref resource_type "string option" int string
  | AddReference string int
  | RemoveReference string
  | Touch string int
  | Dispose string bool
  | ProcessQueue
  | Cleanup DisposalOptions int
  | DisposeAll

fun rm_step :: "rm_call \<Rightarrow> registry \<Rightarrow> registry" where
  "rm_step (Register r t ido now stamp) w = snd (registerResource r t ido now stamp w)"
| "rm_step (AddReference i now) w = addReference i now w"
| "rm_step (RemoveReference i) w = removeReference i w"
| "rm_step (Touch i now) w = touchResource i now w"
| "rm_step (Dispose i force) w = snd (disposeResource i force w)"
| "rm_step ProcessQueue w = snd (processDisposalQueue w)"
| "rm_step (Cleanup options now) w = snd (cleanup options now w)"
| "rm_step DisposeAll w = disposeAll w"

definition rm_run :: "rm_call list \<Rightarrow> registry \<Rightarrow> registry" where
  "rm_run calls w = fold rm_step calls w"

text \<open>
  Well-formedness of a registry state: the two maps have the same keys, without repetition;
  the queue holds registered ids only; no count is negative and every id whose count is zero
  is queued.
\<close>

definition registered :: "registry \<Rightarrow> string set" where
  "registered w = dom (map_of (resources (rm w)))"

definition keys_ok :: "registry \<Rightarrow> bool" where
  "keys_ok w \<longleftrightarrow> distinct (map fst (resources (rm w))) \<and>
     map fst (resourceObjects (rm w)) = map fst (resources (rm w))"

definition queue_ok :: "registry \<Rightarrow> bool" where
  "queue_ok w \<longleftrightarrow> distinct (disposalQueue (rm w)) \<and> set (disposalQueue (rm w)) \<subseteq> registered w"

definition counts_ok :: "registry \<Rightarrow> bool" where
  "counts_ok w \<longleftrightarrow> (\<forall>i info. map_of (resources (rm w)) i = Some info \<longrightarrow>
        0 \<le> refCount info \<and> (refCount info = 0 \<longrightarrow> i \<in> set (disposalQueue (rm w))))"

definition rm_inv :: "registry \<Rightarrow> bool" where
  "rm_inv w \<longleftrightarrow> keys_ok w \<and> queue_ok w \<and> counts_ok w"

text \<open>A small scene used to evaluate the model: a scene with one mesh, its geometry and material.\<close>

definition demo_store :: heap where
  "demo_store =
     \<lparr>objs = [0 \<mapsto> Geometry \<lparr>geo_uuid = ''ga'', attributes = [(''position'', BufferAttribute 3 36)],
                               geo_index = None\<rparr>,
              1 \<mapsto> Material \<lparr>mat_class = MeshStandardMaterial, color = 255, transparent = False, opacity = 1\<rparr>,
              2 \<mapsto> Object3D \<lparr>obj_class = MeshClass, name = ''foundation-a'', uuid = ''ma'',
                               parent = Some 3, children = [], visible = True, position = (0, 0, 0),
                               geometry = Some 0, material = SingleMaterial 1, isLOD = False, levels = []\<rparr>,
              3 \<mapsto> Object3D \<lparr>obj_class = SceneClass, name = ''scene'', uuid = ''sa'',
                               parent = None, children = [2], visible = True, position = (0, 0, 0),
                               geometry = None, material = NoMaterial, isLOD = False, levels = []\<rparr>],
      disposed = {}, next_ref = 4\<rparr>"

text \<open>Call sequences used to evaluate the registry on the small scene.\<close>

definition readd_calls :: "rm_call list" where
  "readd_calls = [Register 0 RGeometry (Some ''g1'') 5 [], RemoveReference ''g1'', AddReference ''g1'' 6]"

definition dup_calls :: "rm_call list" where
  "dup_calls = [Register 0 RGeometry (Some ''g1'') 5 [], AddReference ''g1'' 6]"

section \<open>Render optimizer: state\<close>

record LODConfig =
  distances :: "real list"
  geometryReductions :: "real list"
  materialSimplifications :: "bool list"

record OptimizationSettings =
  enableLOD :: bool
  enableFrustumCulling :: bool
  enableOcclusionCulling :: bool
  maxDrawCalls :: nat
  targetFPS :: real
  adaptiveQuality :: bool

text \<open>The fields of the WebGL renderer that the optimizer reads and writes.\<close>

record renderer_state =
  pixelRatio :: real
  shadowMapEnabled :: bool
  shadowMapSoft :: bool
  frustumCulled :: bool
  sortObjects :: bool

record RenderOptimizerService =
  renderer :: "renderer_state option"
  opt_scene :: "ref option"
  opt_camera :: "ref option"
  lodObjects :: "(ref \<times> ref) list"
  settings :: OptimizationSettings

section \<open>Progressive loader\<close>

datatype LoadingPriority = CRITICAL | HIGH | MEDIUM | LOW

fun priority_value :: "LoadingPriority \<Rightarrow> nat" where
  "priority_value CRITICAL = 0"
| "priority_value HIGH = 1"
| "priority_value MEDIUM = 2"
| "priority_value LOW = 3"

record LoadingChunk =
  chunk_id :: string
  priority :: LoadingPriority
  meshes :: "ref list"
  estimatedSize :: nat
  loaded :: bool

record ProgressiveLoadingOptions =
  maxConcurrentChunks :: nat
  chunkSizeLimit :: nat
  priorityDelayMs :: nat
  enablePreloading :: bool
  distanceBasedLoading :: bool

text \<open>
  What the loader reports: the log line at the start of \<open>loadChunk\<close>, the chunk-loaded
  callback and the progress callback.
\<close>

datatype loader_event =
    ChunkStarted string LoadingPriority nat
  | ChunkLoaded string
  | Progress nat nat

text \<open>
  \<open>suspended\<close> holds the chunks whose \<open>loadChunk\<close> call is waiting at its stagger delay.
\<close>

record ProgressiveLoaderService =
  loadingQueue :: "LoadingChunk list"
  activeLoads :: "string list"
  loadedChunks :: "(string \<times> LoadingChunk) list"
  camera :: "ref option"
  scene :: "ref option"
  options :: ProgressiveLoadingOptions
  suspended :: "LoadingChunk list"
  events :: "loader_event list"

text \<open>
  The renderer is an object of the application; the optimizer holds a reference to it
  between \<open>initialize\<close> and \<open>dispose\<close>.  While the optimizer holds it, its state is the
  field \<open>renderer\<close> of the optimizer; \<open>detached_renderer\<close> is the renderer the optimizer has
  let go of, in the state it had at that moment.
\<close>

record world =
  reg :: registry
  loader :: ProgressiveLoaderService
  optimizer :: RenderOptimizerService
  detached_renderer :: "renderer_state option"

definition default_loading_options :: ProgressiveLoadingOptions where
  "default_loading_options =
     \<lparr>maxConcurrentChunks = 3, chunkSizeLimit = 5 * 1024 * 1024, priorityDelayMs = 100,
      enablePreloading = True, distanceBasedLoading = True\<rparr>"

definition new_loader :: ProgressiveLoaderService where
  "new_loader = \<lparr>loadingQueue = [], activeLoads = [], loadedChunks = [], camera = None,
                 scene = None, options = default_loading_options, suspended = [], events = []\<rparr>"

definition initialize :: "ref \<Rightarrow> ref \<Rightarrow> world \<Rightarrow> world" where
  "initialize sc cam w = w\<lparr>loader := (loader w)\<lparr>scene := Some sc, camera := Some cam\<rparr>\<rparr>"

text \<open>
  \<open>String.toLowerCase\<close> and \<open>String.includes\<close>, on the ASCII range.
\<close>

definition toLowerChar :: "char \<Rightarrow> char" where
  "toLowerChar c = (let n = (of_char c :: nat) in if 65 \<le> n \<and> n \<le> 90 then char_of (n + 32) else c)"

definition toLowerCase :: "string \<Rightarrow> string" where
  "toLowerCase s = map toLowerChar s"

fun startsWith :: "string \<Rightarrow> string \<Rightarrow> bool" where
  "startsWith s [] = True"
| "startsWith [] (c # t) = False"
| "startsWith (a # s) (c # t) = (a = c \<and> startsWith s t)"

fun str_includes :: "string \<Rightarrow> string \<Rightarrow> bool" where
  "str_includes [] t = (t = [])"
| "str_includes (a # s) t = (startsWith (a # s) t \<or> str_includes s t)"

text \<open>
  \<open>getTriangleCount\<close> reads \<open>mesh.geometry.index\<close>; on a mesh without geometry that read
  throws, which is the value \<open>None\<close>.  The count is a third of an element count and need
  not be whole.
\<close>

definition position_attribute :: "geometry_data \<Rightarrow> attribute option" where
  "position_attribute g = map_of (attributes g) ''position''"

definition getTriangleCount :: "heap \<Rightarrow> object3d \<Rightarrow> real option" where
  "getTriangleCount h mesh =
     (case geometry mesh of
        None \<Rightarrow> None
      | Some gr \<Rightarrow>
          (case objs h gr of
             Some (Geometry g) \<Rightarrow>
               (case geo_index g of
                  Some ix \<Rightarrow> Some (real (index_count ix) / 3)
                | None \<Rightarrow>
                    (case position_attribute g of
                       Some a \<Rightarrow> Some (real (attr_count a) / 3)
                     | None \<Rightarrow> Some 0))
           | _ \<Rightarrow> None))"

definition determineMeshPriority :: "heap \<Rightarrow> ref \<Rightarrow> LoadingPriority option" where
  "determineMeshPriority h m =
     (case node_of h m of
        None \<Rightarrow> None
      | Some mesh \<Rightarrow>
          (let nm = toLowerCase (name mesh) in
           if str_includes nm ''structure'' \<or> str_includes nm ''foundation'' \<or> str_includes nm ''core''
           then Some CRITICAL
           else if str_includes nm ''panel'' \<or> str_includes nm ''facade'' \<or> str_includes nm ''wall''
           then Some HIGH
           else if str_includes nm ''detail'' \<or> str_includes nm ''trim'' \<or> str_includes nm ''fixture''
           then Some MEDIUM
           else (case getTriangleCount h mesh of
                   None \<Rightarrow> None
                 | Some triangleCount \<Rightarrow>
                     if triangleCount > 10000 then Some HIGH
                     else if triangleCount > 1000 then Some MEDIUM
                     else Some LOW)))"

text \<open>
  \<open>groupMeshesByPriority\<close>: each mesh is pushed to the group of its priority, in order;
  \<open>None\<close> when classifying some mesh throws.
\<close>

fun groupMeshesByPriority :: "heap \<Rightarrow> ref list \<Rightarrow> (LoadingPriority \<Rightarrow> ref list) option" where
  "groupMeshesByPriority h [] = Some (\<lambda>p. [])"
| "groupMeshesByPriority h (m # ms) =
     (case determineMeshPriority h m of
        None \<Rightarrow> None
      | Some p \<Rightarrow>
          (case groupMeshesByPriority h ms of
             None \<Rightarrow> None
           | Some groups \<Rightarrow> Some (groups(p := m # groups p))))"

definition estimateMeshSize :: "heap \<Rightarrow> ref \<Rightarrow> nat" where
  "estimateMeshSize h m =
     (case node_of h m of
        None \<Rightarrow> 1024
      | Some mesh \<Rightarrow>
          (case geometry mesh of
             None \<Rightarrow> 0
           | Some gr \<Rightarrow> (case objs h gr of Some (Geometry g) \<Rightarrow> geometry_bytes g | _ \<Rightarrow> 0))
          + 1024)"

definition digit_char :: "nat \<Rightarrow> char" where
  "digit_char n = char_of (48 + n)"

fun show_digits :: "nat \<Rightarrow> nat \<Rightarrow> string" where
  "show_digits 0 n = []"
| "show_digits (Suc k) n =
     (if n < 10 then [digit_char n] else show_digits k (n div 10) @ [digit_char (n mod 10)])"

text \<open>Decimal rendering of a number; a number \<open>n\<close> has at most \<open>n + 1\<close> digits.\<close>

definition show_nat :: "nat \<Rightarrow> string" where
  "show_nat n = show_digits (Suc n) n"

text \<open>
  \<open>createChunk\<close>: the id joins the priority with the clock and a random suffix; the latter
  two are the \<open>stamp\<close> supplied by the caller of the model.
\<close>

definition createChunk :: "string \<Rightarrow> ref list \<Rightarrow> LoadingPriority \<Rightarrow> nat \<Rightarrow> LoadingChunk" where
  "createChunk stamp ms p sz =
     \<lparr>chunk_id = ''chunk_'' @ show_nat (priority_value p) @ ''_'' @ stamp,
      priority = p, meshes = ms, estimatedSize = sz, loaded = False\<rparr>"

text \<open>
  The \<open>forEach\<close> of \<open>createChunksFromMeshes\<close>, with its three variables \<open>chunks\<close>,
  \<open>currentChunk\<close> and \<open>currentSize\<close>, followed by the final push of the remaining meshes.
  The k-th chunk created takes the stamp \<open>stamps k\<close>.
\<close>

fun chunk_loop :: "(nat \<Rightarrow> string) \<Rightarrow> heap \<Rightarrow> nat \<Rightarrow> LoadingPriority \<Rightarrow> ref list
    \<Rightarrow> LoadingChunk list \<Rightarrow> ref list \<Rightarrow> nat \<Rightarrow> LoadingChunk list" where
  "chunk_loop stamps h limit p [] chunks currentChunk currentSize =
     (if currentChunk \<noteq> []
      then chunks @ [createChunk (stamps (length chunks)) currentChunk p currentSize]
      else chunks)"
| "chunk_loop stamps h limit p (mesh # rest) chunks currentChunk currentSize =
     (let meshSize = estimateMeshSize h mesh in
      if currentSize + meshSize > limit \<and> currentChunk \<noteq> []
      then chunk_loop stamps h limit p rest
             (chunks @ [createChunk (stamps (length chunks)) currentChunk p currentSize])
             [mesh] meshSize
      else chunk_loop stamps h limit p rest chunks (currentChunk @ [mesh]) (currentSize + meshSize))"

definition createChunksFromMeshes :: "(nat \<Rightarrow> string) \<Rightarrow> heap \<Rightarrow> ProgressiveLoadingOptions
    \<Rightarrow> ref list \<Rightarrow> LoadingPriority \<Rightarrow> LoadingChunk list" where
  "createChunksFromMeshes stamps h opts ms p = chunk_loop stamps h (chunkSizeLimit opts) p ms [] [] 0"

text \<open>
  \<open>analyzeAndChunkModel\<close>: the meshes of the scene in traversal order, grouped by priority;
  the groups are visited in the order of their numeric keys.
\<close>

definition analyzeAndChunkModel :: "(LoadingPriority \<Rightarrow> nat \<Rightarrow> string) \<Rightarrow> heap
    \<Rightarrow> ProgressiveLoadingOptions \<Rightarrow> ref \<Rightarrow> LoadingChunk list option" where
  "analyzeAndChunkModel stamps h opts sc =
     (case groupMeshesByPriority h (filter (isMesh h) (traverse_all h sc)) of
        None \<Rightarrow> None
      | Some groups \<Rightarrow>
          Some (concat (map (\<lambda>p. createChunksFromMeshes (stamps p) h opts (groups p) p)
                            [CRITICAL, HIGH, MEDIUM, LOW])))"

text \<open>
  \<open>loadChunk\<close> up to its delay: the chunk becomes active, its meshes are hidden and the
  mesh, its geometry and its materials are registered.
\<close>

definition registerMesh :: "int \<Rightarrow> ref \<Rightarrow> registry \<Rightarrow> registry" where
  "registerMesh now m r =
     (case node_of (store r) m of
        None \<Rightarrow> r
      | Some n0 \<Rightarrow>
          (let r1 = r\<lparr>store := set_visible m False (store r)\<rparr>;
               r2 = snd (registerResource m RMesh (Some (''mesh_'' @ uuid n0)) now [] r1);
               r3 = (case geometry n0 of
                       None \<Rightarrow> r2
                     | Some gr \<Rightarrow>
                         (case objs (store r2) gr of
                            Some (Geometry g) \<Rightarrow>
                              snd (registerResource gr RGeometry (Some (''geo_'' @ geo_uuid g)) now [] r2)
                          | _ \<Rightarrow> r2))
           in fold (\<lambda>(mr, i) rr.
                      snd (registerResource mr RMaterial
                             (Some (''mat_'' @ uuid n0 @ ''_'' @ show_nat i)) now [] rr))
                   (zip (material_refs (material n0)) [0 ..< length (material_refs (material n0))])
                   r3))"

definition loadChunk_begin :: "int \<Rightarrow> LoadingChunk \<Rightarrow> world \<Rightarrow> world" where
  "loadChunk_begin now chunk w =
     w\<lparr>loader := (loader w)\<lparr>activeLoads := set_add (chunk_id chunk) (activeLoads (loader w)),
                              events := events (loader w) @
                                 [ChunkStarted (chunk_id chunk) (priority chunk) (length (meshes chunk))]\<rparr>,
       reg := fold (registerMesh now) (meshes chunk) (reg w)\<rparr>"

text \<open>
  \<open>loadChunk\<close> after its delay: the meshes become visible, the chunk is marked loaded and
  stored, the callback runs, and (in the \<open>finally\<close> block) the chunk stops being active.
\<close>

definition loadChunk_complete :: "LoadingChunk \<Rightarrow> world \<Rightarrow> world" where
  "loadChunk_complete chunk w =
     w\<lparr>reg := (reg w)\<lparr>store := fold (\<lambda>m. set_visible m True) (meshes chunk) (store (reg w))\<rparr>,
       loader := (loader w)\<lparr>loadedChunks :=
                                AList.update (chunk_id chunk) (chunk\<lparr>loaded := True\<rparr>)
                                  (loadedChunks (loader w)),
                              events := events (loader w) @ [ChunkLoaded (chunk_id chunk)],
                              activeLoads := set_delete (chunk_id chunk) (activeLoads (loader w))\<rparr>\<rparr>"

definition chunk_delay :: "ProgressiveLoadingOptions \<Rightarrow> LoadingChunk \<Rightarrow> nat" where
  "chunk_delay opts chunk = priority_value (priority chunk) * priorityDelayMs opts"

text \<open>
  The synchronous part of a \<open>loadChunk\<close> call: with a positive delay the call suspends,
  otherwise it runs to its end at once.
\<close>

definition loadChunk :: "int \<Rightarrow> LoadingChunk \<Rightarrow> world \<Rightarrow> world" where
  "loadChunk now chunk w =
     (let w1 = loadChunk_begin now chunk w in
      if chunk_delay (options (loader w)) chunk > 0
      then w1\<lparr>loader := (loader w1)\<lparr>suspended := chunk # suspended (loader w1)\<rparr>\<rparr>
      else loadChunk_complete chunk w1)"

text \<open>
  The inner loop of \<open>processLoadingQueue\<close>: while fewer than \<open>maxConcurrentChunks\<close> chunks
  are active and the queue is not empty, shift a chunk off the queue and call \<open>loadChunk\<close>.
\<close>

fun startLoads_loop :: "int \<Rightarrow> LoadingChunk list \<Rightarrow> world \<Rightarrow> world" where
  "startLoads_loop now [] w = w\<lparr>loader := (loader w)\<lparr>loadingQueue := []\<rparr>\<rparr>"
| "startLoads_loop now (chunk # rest) w =
     (if length (activeLoads (loader w)) < maxConcurrentChunks (options (loader w))
      then startLoads_loop now rest (loadChunk now chunk (w\<lparr>loader := (loader w)\<lparr>loadingQueue := rest\<rparr>\<rparr>))
      else w\<lparr>loader := (loader w)\<lparr>loadingQueue := chunk # rest\<rparr>\<rparr>)"

definition startLoads :: "int \<Rightarrow> world \<Rightarrow> world" where
  "startLoads now w = startLoads_loop now (loadingQueue (loader w)) w"

text \<open>
  \<open>loadModelProgressively\<close> up to its first suspension: the chunks of the loaded scene are
  sorted by priority (the sort is stable), become the loading queue, and the loading loop
  starts as many chunks as the cap allows.  \<open>None\<close> when the analysis throws.
\<close>

definition enqueueModel :: "(LoadingPriority \<Rightarrow> nat \<Rightarrow> string) \<Rightarrow> ref \<Rightarrow> world \<Rightarrow> world option" where
  "enqueueModel stamps sc w =
     (case analyzeAndChunkModel stamps (store (reg w)) (options (loader w)) sc of
        None \<Rightarrow> None
      | Some chunks \<Rightarrow>
          Some (w\<lparr>loader := (loader w)\<lparr>loadingQueue := sort_key (\<lambda>c. priority_value (priority c)) chunks\<rparr>\<rparr>))"

definition loadModelProgressively :: "(LoadingPriority \<Rightarrow> nat \<Rightarrow> string) \<Rightarrow> int \<Rightarrow> ref \<Rightarrow> world
    \<Rightarrow> world option" where
  "loadModelProgressively stamps now sc w = map_option (startLoads now) (enqueueModel stamps sc w)"

text \<open>
  An execution of the loading loop interleaves three kinds of events: the loop starts the
  chunk at the head of the queue (only while fewer than \<open>maxConcurrentChunks\<close> are active);
  a started chunk finishes, at any later moment and in any order; the loop reports progress.
  \<open>totalChunks\<close> is the queue length the loop read when it was entered.
\<close>

inductive loading_step :: "world \<Rightarrow> world \<Rightarrow> bool" where
  start:
    "loadingQueue (loader w) = chunk # rest \<Longrightarrow>
     length (activeLoads (loader w)) < maxConcurrentChunks (options (loader w)) \<Longrightarrow>
     w1 = loadChunk_begin now chunk (w\<lparr>loader := (loader w)\<lparr>loadingQueue := rest\<rparr>\<rparr>) \<Longrightarrow>
     loading_step w (w1\<lparr>loader := (loader w1)\<lparr>suspended := chunk # suspended (loader w1)\<rparr>\<rparr>)"
| finish:
    "chunk \<in> set (suspended (loader w)) \<Longrightarrow>
     loading_step w
       (loadChunk_complete chunk (w\<lparr>loader := (loader w)\<lparr>suspended := remove1 chunk (suspended (loader w))\<rparr>\<rparr>))"
| progress:
    "loading_step w
       (w\<lparr>loader := (loader w)\<lparr>events := events (loader w) @
                                   [Progress (length (loadedChunks (loader w))) totalChunks]\<rparr>\<rparr>)"

definition loading_run :: "world \<Rightarrow> world \<Rightarrow> bool" where
  "loading_run w w' = loading_step\<^sup>*\<^sup>* w w'"

definition distanceTo :: "real \<times> real \<times> real \<Rightarrow> real \<times> real \<times> real \<Rightarrow> real" where
  "distanceTo a b =
     (case a of (ax, ay, az) \<Rightarrow> case b of (bx, by, bz) \<Rightarrow>
        sqrt ((ax - bx)\<^sup>2 + (ay - by)\<^sup>2 + (az - bz)\<^sup>2))"

definition updateMeshVisibility :: "real \<times> real \<times> real \<Rightarrow> LoadingPriority \<Rightarrow> ref \<Rightarrow> heap \<Rightarrow> heap" where
  "updateMeshVisibility cameraPosition p m h =
     (case node_of h m of
        None \<Rightarrow> h
      | Some mesh \<Rightarrow>
          (let distance = distanceTo cameraPosition (position mesh) in
           if priority_value p \<ge> priority_value MEDIUM \<and> distance > 100 then set_visible m False h
           else if priority_value p \<ge> priority_value LOW \<and> distance > 50 then set_visible m False h
           else set_visible m True h))"

definition updateDistanceBasedLoading :: "world \<Rightarrow> world" where
  "updateDistanceBasedLoading w =
     (if \<not> distanceBasedLoading (options (loader w)) \<or> camera (loader w) = None \<or> scene (loader w) = None
      then w
      else (case node_of (store (reg w)) (the (camera (loader w))) of
              None \<Rightarrow> w
            | Some cam \<Rightarrow>
                w\<lparr>reg := (reg w)\<lparr>store :=
                     fold (\<lambda>(cid, chunk) h.
                             fold (updateMeshVisibility (position cam) (priority chunk)) (meshes chunk) h)
                          (loadedChunks (loader w)) (store (reg w))\<rparr>\<rparr>))"

definition loader_reset :: "world \<Rightarrow> world" where
  "loader_reset w = w\<lparr>loader := (loader w)\<lparr>loadingQueue := [], activeLoads := [], loadedChunks := []\<rparr>\<rparr>"

definition mesh_node :: "string \<Rightarrow> string \<Rightarrow> ref \<Rightarrow> ref \<Rightarrow> ref \<Rightarrow> object3d" where
  "mesh_node nm u par g m =
     \<lparr>obj_class = MeshClass, name = nm, uuid = u, parent = Some par, children = [], visible = True,
      position = (0, 0, 0), geometry = Some g, material = SingleMaterial m, isLOD = False, levels = []\<rparr>"

definition plain_node :: "node_class \<Rightarrow> string \<Rightarrow> string \<Rightarrow> ref list \<Rightarrow> object3d" where
  "plain_node c nm u cs =
     \<lparr>obj_class = c, name = nm, uuid = u, parent = None, children = cs, visible = True,
      position = (0, 0, 0), geometry = None, material = NoMaterial, isLOD = False, levels = []\<rparr>"

definition box_geometry :: "string \<Rightarrow> geometry_data" where
  "box_geometry u = \<lparr>geo_uuid = u, attributes = [(''position'', BufferAttribute 24 288)],
                     geo_index = Some \<lparr>index_values = [0, 1, 2, 2, 3, 0], index_bytesPerElement = 2\<rparr>\<rparr>"

definition site_store :: heap where
  "site_store =
     \<lparr>objs = [10 \<mapsto> Object3D (plain_node SceneClass ''site'' ''s10'' [11, 12, 13]),
              11 \<mapsto> Object3D (mesh_node ''foundation-a'' ''m11'' 10 14 17),
              12 \<mapsto> Object3D (mesh_node ''panel-wall-1'' ''m12'' 10 15 17),
              13 \<mapsto> Object3D (mesh_node ''trim-fixture-2'' ''m13'' 10 16 17),
              14 \<mapsto> Geometry (box_geometry ''g14''),
              15 \<mapsto> Geometry (box_geometry ''g15''),
              16 \<mapsto> Geometry (box_geometry ''g16''),
              17 \<mapsto> Material \<lparr>mat_class = MeshStandardMaterial, color = 255, transparent = False, opacity = 1\<rparr>,
              18 \<mapsto> Object3D (plain_node CameraClass ''camera'' ''c18'' [])],
      disposed = {}, next_ref = 19\<rparr>"

definition site_stamps :: "LoadingPriority \<Rightarrow> nat \<Rightarrow> string" where
  "site_stamps p k = show_nat k"

definition mesh_sizes :: "heap \<Rightarrow> ref list \<Rightarrow> nat" where
  "mesh_sizes h ms = sum_list (map (estimateMeshSize h) ms)"

definition chunk_ok :: "heap \<Rightarrow> nat \<Rightarrow> LoadingChunk \<Rightarrow> bool" where
  "chunk_ok h limit c \<longleftrightarrow>
     meshes c \<noteq> [] \<and> estimatedSize c = mesh_sizes h (meshes c) \<and>
     (1 < length (meshes c) \<longrightarrow> mesh_sizes h (meshes c) \<le> limit)"

section \<open>Render optimizer\<close>

record PerformanceMetrics =
  fps :: real
  frameTime :: real
  drawCalls :: nat
  triangles :: nat

definition default_settings :: OptimizationSettings where
  "default_settings =
     \<lparr>enableLOD = True, enableFrustumCulling = True, enableOcclusionCulling = False,
      maxDrawCalls = 100, targetFPS = 30, adaptiveQuality = True\<rparr>"

definition defaultLODConfig :: LODConfig where
  "defaultLODConfig =
     \<lparr>distances = [0, 20, 50, 100], geometryReductions = [0, 1/2, 3/4, 9/10],
      materialSimplifications = [False, False, True, True]\<rparr>"

definition new_optimizer :: RenderOptimizerService where
  "new_optimizer = \<lparr>renderer = None, opt_scene = None, opt_camera = None, lodObjects = [],
                    settings = default_settings\<rparr>"

definition new_world :: "heap \<Rightarrow> world" where
  "new_world h = \<lparr>reg = \<lparr>store = h, rm = new_manager\<rparr>, loader = new_loader, optimizer = new_optimizer,
                  detached_renderer = None\<rparr>"

text \<open>\<open>devicePixelRatio\<close> is the value of \<open>window.devicePixelRatio\<close> at the time of the call.\<close>

definition setupRendererOptimizations :: "real \<Rightarrow> world \<Rightarrow> world" where
  "setupRendererOptimizations devicePixelRatio w =
     (case renderer (optimizer w) of
        None \<Rightarrow> w
      | Some r \<Rightarrow>
          w\<lparr>optimizer := (optimizer w)\<lparr>renderer :=
               Some (r\<lparr>pixelRatio := min devicePixelRatio 2, shadowMapEnabled := True,
                        shadowMapSoft := True, frustumCulled := True, sortObjects := True\<rparr>)\<rparr>\<rparr>)"

definition optimizer_initialize :: "renderer_state \<Rightarrow> ref \<Rightarrow> ref \<Rightarrow> real \<Rightarrow> world \<Rightarrow> world" where
  "optimizer_initialize r sc cam devicePixelRatio w =
     setupRendererOptimizations devicePixelRatio
       (w\<lparr>optimizer := (optimizer w)\<lparr>renderer := Some r, opt_scene := Some sc, opt_camera := Some cam\<rparr>\<rparr>)"

text \<open>Construction of an object: it takes the next free reference.\<close>

definition alloc :: "three \<Rightarrow> heap \<Rightarrow> ref \<times> heap" where
  "alloc ob h = (next_ref h, h\<lparr>objs := (objs h)(next_ref h \<mapsto> ob), next_ref := Suc (next_ref h)\<rparr>)"

text \<open>
  \<open>Object3D.add\<close>: an object is not added to itself; otherwise it leaves its former parent
  and is appended to the new parent's children.
\<close>

definition add_child :: "ref \<Rightarrow> ref \<Rightarrow> heap \<Rightarrow> heap" where
  "add_child p c h =
     (if c = p then h
      else (case node_of h c of
              None \<Rightarrow> h
            | Some cn \<Rightarrow>
                (let h1 = (case parent cn of None \<Rightarrow> h | Some q \<Rightarrow> remove_child q c h);
                     h2 = (case node_of h1 c of
                             None \<Rightarrow> h1
                           | Some cn1 \<Rightarrow> set_node c (cn1\<lparr>parent := Some p\<rparr>) h1)
                 in case node_of h2 p of
                      None \<Rightarrow> h2
                    | Some pn \<Rightarrow> set_node p (pn\<lparr>children := children pn @ [c]\<rparr>) h2)))"

fun insert_level :: "ref \<Rightarrow> real \<Rightarrow> (ref \<times> real) list \<Rightarrow> (ref \<times> real) list" where
  "insert_level ob d [] = [(ob, d)]"
| "insert_level ob d (l # ls) = (if d < snd l then (ob, d) # l # ls else l # insert_level ob d ls)"

text \<open>\<open>LOD.addLevel\<close>: the level list stays ordered by distance and the object becomes a child.\<close>

definition addLevel :: "ref \<Rightarrow> ref \<Rightarrow> real \<Rightarrow> heap \<Rightarrow> heap" where
  "addLevel lod ob distance h =
     (case node_of h lod of
        None \<Rightarrow> h
      | Some lodNode \<Rightarrow> add_child lod ob (set_node lod (lodNode\<lparr>levels := insert_level ob \<bar>distance\<bar> (levels lodNode)\<rparr>) h))"

definition nth_opt :: "'a list \<Rightarrow> nat \<Rightarrow> 'a option" where
  "nth_opt xs i = (if i < length xs then Some (xs ! i) else None)"

text \<open>
  The index subsampling of \<open>simplifyGeometry\<close>.  \<open>targetCount\<close> is the value of
  \<open>Math.floor(indices.count * (1 - reduction))\<close>.  The source computes it in double
  precision, where \<open>1 - reduction\<close> and the product are rounded (thirty indices and a
  reduction of 0.9 give 2, not 3), so it is not computed over the reals here: the
  functions below take it from \<open>targets count reduction\<close>, the number that the double
  arithmetic gives (a result that is not a number behaves as zero, an infinite one as any
  count above \<open>indices.count\<close>).  The quotient \<open>indices.count / targetCount\<close> is one of two
  whole numbers, and for index counts below \<open>2^52\<close> the step that comes of it is the same in
  both arithmetics.  With a target count of zero the step is
  infinite (or not a number, for an empty index) and at most the first index is kept;
  otherwise every \<open>step\<close>-th index is kept, starting with the first.
\<close>

definition decimate :: "int \<Rightarrow> nat list \<Rightarrow> nat list" where
  "decimate targetCount idx =
     (let n = length idx
      in if targetCount = 0 then take 1 idx
         else (let step = nat (max 1 \<lfloor>real n / real_of_int targetCount\<rfloor>)
               in map (\<lambda>j. idx ! (j * step)) [0 ..< (n + step - 1) div step]))"

definition setIndex :: "nat list \<Rightarrow> geometry_data \<Rightarrow> geometry_data" where
  "setIndex vals g =
     g\<lparr>geo_index := Some \<lparr>index_values = vals,
                           index_bytesPerElement = (if \<exists>v \<in> set vals. 65535 \<le> v then 4 else 2)\<rparr>\<rparr>"

definition computeVertexNormals :: "geometry_data \<Rightarrow> geometry_data" where
  "computeVertexNormals g =
     (case position_attribute g of
        None \<Rightarrow> g
      | Some a \<Rightarrow>
          (case map_of (attributes g) ''normal'' of
             Some nrm \<Rightarrow> g
           | None \<Rightarrow> g\<lparr>attributes := attributes g @ [(''normal'', BufferAttribute (attr_count a) (attr_count a * 12))]\<rparr>))"

text \<open>\<open>uuids r\<close> is the identifier the library gives to the object constructed at \<open>r\<close>.\<close>

definition clone_geometry :: "(ref \<Rightarrow> string) \<Rightarrow> geometry_data \<Rightarrow> heap \<Rightarrow> ref \<times> heap" where
  "clone_geometry uuids g h = alloc (Geometry (g\<lparr>geo_uuid := uuids (next_ref h)\<rparr>)) h"

definition simplifyGeometry ::
  "(nat \<Rightarrow> real \<Rightarrow> int) \<Rightarrow> (ref \<Rightarrow> string) \<Rightarrow> ref \<Rightarrow> real \<Rightarrow> heap \<Rightarrow> ref \<times> heap" where
  "simplifyGeometry targets uuids gr reduction h =
     (case objs h gr of
        Some (Geometry g) \<Rightarrow>
          (case (position_attribute g, geo_index g) of
             (Some positions, Some indices) \<Rightarrow>
               (let newIndices = decimate (targets (index_count indices) reduction) (index_values indices);
                    (nr, h1) = clone_geometry uuids g h
                in (nr, h1\<lparr>objs := (objs h1)(nr \<mapsto>
                          Geometry (computeVertexNormals (setIndex newIndices
                             (g\<lparr>geo_uuid := uuids nr\<rparr>))))\<rparr>))
           | _ \<Rightarrow> (gr, h))
      | _ \<Rightarrow> (gr, h))"

text \<open>
  \<open>simplifyMaterial\<close>: of a material array the first element is taken; a standard material
  is replaced by a new basic material of the same colour, transparency and opacity.
\<close>

definition simplifyMaterial :: "material_slot \<Rightarrow> heap \<Rightarrow> material_slot \<times> heap" where
  "simplifyMaterial slot h =
     (let first = (case slot of
                     NoMaterial \<Rightarrow> None
                   | SingleMaterial r \<Rightarrow> Some r
                   | MaterialArray rs \<Rightarrow> (case rs of [] \<Rightarrow> None | r # rest \<Rightarrow> Some r))
      in case first of
           None \<Rightarrow> (NoMaterial, h)
         | Some r \<Rightarrow>
             (case objs h r of
                Some (Material m) \<Rightarrow>
                  if mat_class m = MeshStandardMaterial
                  then (let (nr, h1) = alloc (Material (m\<lparr>mat_class := MeshBasicMaterial\<rparr>)) h
                        in (SingleMaterial nr, h1))
                  else (SingleMaterial r, h)
              | _ \<Rightarrow> (SingleMaterial r, h)))"

text \<open>\<open>new THREE.Mesh(geometry, material)\<close>; a missing material is replaced by a new basic one.\<close>

definition new_Mesh :: "(ref \<Rightarrow> string) \<Rightarrow> ref \<Rightarrow> material_slot \<Rightarrow> bool \<Rightarrow> heap \<Rightarrow> ref \<times> heap" where
  "new_Mesh uuids g slot lodFlag h =
     (let (slot1, h1) =
            (case slot of
               NoMaterial \<Rightarrow>
                 (let (mr, hm) = alloc (Material \<lparr>mat_class = MeshBasicMaterial, color = 16777215,
                                                  transparent = False, opacity = 1\<rparr>) h
                  in (SingleMaterial mr, hm))
             | _ \<Rightarrow> (slot, h))
      in alloc (Object3D \<lparr>obj_class = MeshClass, name = [], uuid = uuids (next_ref h1), parent = None,
                          children = [], visible = True, position = (0, 0, 0), geometry = Some g,
                          material = slot1, isLOD = lodFlag, levels = []\<rparr>) h1)"

text \<open>
  \<open>createSimplifiedMesh\<close>; \<open>None\<close> is the \<open>null\<close> returned when cloning the geometry throws
  (the mesh has none).
\<close>

definition createSimplifiedMesh ::
  "(nat \<Rightarrow> real \<Rightarrow> int) \<Rightarrow> (ref \<Rightarrow> string) \<Rightarrow> ref \<Rightarrow> real option \<Rightarrow> bool \<Rightarrow> heap \<Rightarrow> ref option \<times> heap" where
  "createSimplifiedMesh targets uuids originalMesh geometryReduction simplifyMat h =
     (case node_of h originalMesh of
        None \<Rightarrow> (None, h)
      | Some mn \<Rightarrow>
          (case geometry mn of
             None \<Rightarrow> (None, h)
           | Some gr \<Rightarrow>
               (case objs h gr of
                  Some (Geometry g) \<Rightarrow>
                    (let (g1, h1) = clone_geometry uuids g h;
                         (g2, h2) = (case geometryReduction of
                                       Some red \<Rightarrow> if red > 0 then simplifyGeometry targets uuids g1 red h1
                                                   else (g1, h1)
                                     | None \<Rightarrow> (g1, h1));
                         (mat, h3) = (if simplifyMat then simplifyMaterial (material mn) h2
                                      else (material mn, h2));
                         (m, h4) = new_Mesh uuids g2 mat True h3
                     in (Some m, h4))
                | _ \<Rightarrow> (None, h))))"

definition addSimplifiedLevel ::
  "(nat \<Rightarrow> real \<Rightarrow> int) \<Rightarrow> (ref \<Rightarrow> string) \<Rightarrow> ref \<Rightarrow> ref \<Rightarrow> LODConfig \<Rightarrow> nat \<Rightarrow> heap \<Rightarrow> heap" where
  "addSimplifiedLevel targets uuids mesh lod config i h =
     (case createSimplifiedMesh targets uuids mesh (nth_opt (geometryReductions config) i)
             (case nth_opt (materialSimplifications config) i of Some b \<Rightarrow> b | None \<Rightarrow> False) h of
        (None, h1) \<Rightarrow> h1
      | (Some simplifiedMesh, h1) \<Rightarrow> addLevel lod simplifiedMesh (distances config ! i) h1)"

definition new_LOD :: "(ref \<Rightarrow> string) \<Rightarrow> heap \<Rightarrow> ref \<times> heap" where
  "new_LOD uuids h =
     alloc (Object3D \<lparr>obj_class = LODClass, name = [], uuid = uuids (next_ref h), parent = None,
                      children = [], visible = True, position = (0, 0, 0), geometry = None,
                      material = NoMaterial, isLOD = False, levels = []\<rparr>) h"

text \<open>
  \<open>createLODForMesh\<close>: a new LOD object with the original mesh as its first level and one
  simplified mesh for each further distance of the configuration; the LOD object is
  remembered in \<open>lodObjects\<close> under the original mesh.
\<close>

definition createLODForMesh ::
  "(nat \<Rightarrow> real \<Rightarrow> int) \<Rightarrow> (ref \<Rightarrow> string) \<Rightarrow> ref \<Rightarrow> LODConfig \<Rightarrow> world \<Rightarrow> ref \<times> world" where
  "createLODForMesh targets uuids mesh config w =
     (let (lod, h1) = new_LOD uuids (store (reg w));
          h2 = addLevel lod mesh (case nth_opt (distances config) 0 of Some d \<Rightarrow> d | None \<Rightarrow> 0) h1;
          h3 = fold (addSimplifiedLevel targets uuids mesh lod config) [1 ..< length (distances config)] h2
      in (lod, w\<lparr>reg := (reg w)\<lparr>store := h3\<rparr>,
                 optimizer := (optimizer w)\<lparr>lodObjects := AList.update mesh lod (lodObjects (optimizer w))\<rparr>\<rparr>))"

text \<open>
  \<open>performFrustumCulling\<close>; \<open>intersects r\<close> is the answer of the library's frustum test
  for the object \<open>r\<close> under the current camera.
\<close>

definition performFrustumCulling :: "(ref \<Rightarrow> bool) \<Rightarrow> world \<Rightarrow> world" where
  "performFrustumCulling intersects w =
     (case (opt_camera (optimizer w), opt_scene (optimizer w)) of
        (Some cam, Some sc) \<Rightarrow>
          w\<lparr>reg := (reg w)\<lparr>store :=
               fold (\<lambda>r h. if isMesh h r then set_visible r (intersects r) h else h)
                    (traverse_all (store (reg w)) sc) (store (reg w))\<rparr>\<rparr>
      | _ \<Rightarrow> w)"

definition reduceQuality :: "world \<Rightarrow> world" where
  "reduceQuality w =
     (case renderer (optimizer w) of
        None \<Rightarrow> w
      | Some r \<Rightarrow>
          (let currentPixelRatio = pixelRatio r;
               r1 = (if currentPixelRatio > 1
                     then r\<lparr>pixelRatio := max 1 (currentPixelRatio * (8 / 10))\<rparr> else r);
               r2 = (if shadowMapEnabled r1 then r1\<lparr>shadowMapEnabled := False\<rparr> else r1)
           in w\<lparr>optimizer := (optimizer w)\<lparr>renderer := Some r2\<rparr>\<rparr>))"

definition increaseQuality :: "real \<Rightarrow> world \<Rightarrow> world" where
  "increaseQuality devicePixelRatio w =
     (case renderer (optimizer w) of
        None \<Rightarrow> w
      | Some r \<Rightarrow>
          (let maxPixelRatio = min devicePixelRatio 2;
               currentPixelRatio = pixelRatio r;
               r1 = (if currentPixelRatio < maxPixelRatio
                     then r\<lparr>pixelRatio := min maxPixelRatio (currentPixelRatio * (11 / 10))\<rparr> else r);
               r2 = (if \<not> shadowMapEnabled r1 then r1\<lparr>shadowMapEnabled := True\<rparr> else r1)
           in w\<lparr>optimizer := (optimizer w)\<lparr>renderer := Some r2\<rparr>\<rparr>))"

text \<open>
  \<open>adaptiveOptimization\<close>; \<open>metrics\<close> is what \<open>performanceMonitor.getCurrentMetrics()\<close>
  returns, \<open>None\<close> for \<open>null\<close>.
\<close>

definition adaptiveOptimization :: "real \<Rightarrow> PerformanceMetrics option \<Rightarrow> world \<Rightarrow> world" where
  "adaptiveOptimization devicePixelRatio metrics w =
     (if \<not> adaptiveQuality (settings (optimizer w)) then w
      else (case metrics of
              None \<Rightarrow> w
            | Some m \<Rightarrow>
                (let targetFPS' = targetFPS (settings (optimizer w)) in
                 if fps m < targetFPS' * (8 / 10) then reduceQuality w
                 else if fps m > targetFPS' * (12 / 10) then increaseQuality devicePixelRatio w
                 else w)))"

definition optimizer_reset :: "real \<Rightarrow> world \<Rightarrow> world" where
  "optimizer_reset devicePixelRatio w =
     (let o1 = (optimizer w)\<lparr>lodObjects := []\<rparr>;
          o2 = (case renderer o1 of
                  None \<Rightarrow> o1
                | Some r \<Rightarrow> o1\<lparr>renderer := Some (r\<lparr>pixelRatio := min devicePixelRatio 2,
                                                     shadowMapEnabled := True\<rparr>)\<rparr>);
          h = (case opt_scene o2 of
                 None \<Rightarrow> store (reg w)
               | Some sc \<Rightarrow> fold (\<lambda>r. set_visible r True) (traverse_all (store (reg w)) sc) (store (reg w)))
      in w\<lparr>reg := (reg w)\<lparr>store := h\<rparr>, optimizer := o2\<rparr>)"

text \<open>
  \<open>dispose\<close>: \<open>reset\<close>, then the optimizer drops its references to renderer, scene and
  camera.  The objects themselves live on: scene and camera in the store, the renderer,
  with the pixel ratio and the shadow flag that \<open>reset\<close> has just written, in
  \<open>detached_renderer\<close>.
\<close>

definition optimizer_dispose :: "real \<Rightarrow> world \<Rightarrow> world" where
  "optimizer_dispose devicePixelRatio w =
     (let w1 = optimizer_reset devicePixelRatio w
      in w1\<lparr>optimizer := (optimizer w1)\<lparr>renderer := None, opt_scene := None, opt_camera := None\<rparr>,
            detached_renderer := (case renderer (optimizer w1) of
                                    None \<Rightarrow> detached_renderer w1
                                  | Some r \<Rightarrow> Some r)\<rparr>)"

definition site_world :: world where
  "site_world = initialize 10 18 (new_world site_store)"

text \<open>The priorities of the chunks started so far, in the order of their start.\<close>

definition started_priorities :: "world \<Rightarrow> LoadingPriority list" where
  "started_priorities w =
     concat (map (\<lambda>e. case e of ChunkStarted i p n \<Rightarrow> [p] | _ \<Rightarrow> []) (events (loader w)))"

definition priority_of :: "heap \<Rightarrow> LoadingPriority \<Rightarrow> ref \<Rightarrow> bool" where
  "priority_of h p m \<longleftrightarrow> determineMeshPriority h m = Some p"

definition site_queue :: "LoadingChunk list" where
  "site_queue =
     [\<lparr>chunk_id = ''chunk_0_0'', priority = CRITICAL, meshes = [11], estimatedSize = 1324, loaded = False\<rparr>,
      \<lparr>chunk_id = ''chunk_1_0'', priority = HIGH, meshes = [12], estimatedSize = 1324, loaded = False\<rparr>,
      \<lparr>chunk_id = ''chunk_2_0'', priority = MEDIUM, meshes = [13], estimatedSize = 1324, loaded = False\<rparr>]"

definition site_queued :: world where
  "site_queued = site_world\<lparr>loader := (loader site_world)\<lparr>loadingQueue := site_queue\<rparr>\<rparr>"

text \<open>A display with a device pixel ratio of one half, and a slow frame.\<close>

definition lowdpi_world :: world where
  "lowdpi_world =
     optimizer_initialize \<lparr>pixelRatio = 1, shadowMapEnabled = False, shadowMapSoft = False,
                            frustumCulled = False, sortObjects = False\<rparr> 10 18 (1 / 2) site_world"

definition slow_frame :: PerformanceMetrics where
  "slow_frame = \<lparr>fps = 10, frameTime = 100, drawCalls = 50, triangles = 1000\<rparr>"

text \<open>
  The outcome of the distance test in \<open>updateDistanceBasedLoading\<close> for a chunk priority and
  a distance, and the position of an object of the store.
\<close>

definition distance_shown :: "LoadingPriority \<Rightarrow> real \<Rightarrow> bool" where
  "distance_shown p d \<longleftrightarrow>
     \<not> (priority_value MEDIUM \<le> priority_value p \<and> 100 < d) \<and>
     \<not> (priority_value LOW \<le> priority_value p \<and> 50 < d)"

definition position_of :: "heap \<Rightarrow> ref \<Rightarrow> (real \<times> real \<times> real) option" where
  "position_of h r = map_option position (node_of h r)"

definition nothing_in_view :: "ref \<Rightarrow> bool" where
  "nothing_in_view r = False"

definition update_chunks :: "real \<times> real \<times> real \<Rightarrow> (string \<times> LoadingChunk) list \<Rightarrow> heap \<Rightarrow> heap" where
  "update_chunks cp cs h =
     fold (\<lambda>(cid, chunk) h. fold (updateMeshVisibility cp (priority chunk)) (meshes chunk) h) cs h"

definition updateOptions :: "(ProgressiveLoadingOptions \<Rightarrow> ProgressiveLoadingOptions) \<Rightarrow> world \<Rightarrow> world" where
  "updateOptions newOptions w = w\<lparr>loader := (loader w)\<lparr>options := newOptions (options (loader w))\<rparr>\<rparr>"

definition distance_loading_off :: "ProgressiveLoadingOptions \<Rightarrow> ProgressiveLoadingOptions" where
  "distance_loading_off opts = opts\<lparr>distanceBasedLoading := False\<rparr>"

definition site_view :: world where
  "site_view =
     optimizer_initialize \<lparr>pixelRatio = 1, shadowMapEnabled = False, shadowMapSoft = False,
                            frustumCulled = False, sortObjects = False\<rparr> 10 18 1 site_queued"

definition site_running :: world where
  "site_running = startLoads 0 site_view"

definition site_off :: world where
  "site_off = updateOptions distance_loading_off site_running"

definition foundation_chunk :: LoadingChunk where
  "foundation_chunk = \<lparr>chunk_id = ''chunk_0_0'', priority = CRITICAL, meshes = [11],
                         estimatedSize = 1324, loaded = True\<rparr>"

definition lod_uuids :: "ref \<Rightarrow> string" where
  "lod_uuids r = ''lod-'' @ show_nat r"

text \<open>
  The target counts that double arithmetic gives for the six indices of the box under the
  reductions 0.5, 0.75 and 0.9 of the default configuration: \<open>6 * 0.5 = 3\<close>,
  \<open>6 * 0.25 = 1.5\<close> and \<open>6 * 0.09999999999999998 = 0.5999999999999999\<close>, floored.
\<close>

definition box_targets :: "nat \<Rightarrow> real \<Rightarrow> int" where
  "box_targets n reduction = (if reduction = 1 / 2 then 3 else if reduction = 3 / 4 then 1 else 0)"

text \<open>A frame that is too slow, on the running site: the quality is reduced.\<close>

definition site_slow :: world where
  "site_slow = adaptiveOptimization 1 (Some slow_frame) site_running"


section \<open>Properties of the resource registry\<close>

lemma update_keys_present: "map_of al k = Some v \<Longrightarrow> map fst (AList.update k v' al) = map fst al"
  by (auto simp: AList.update_keys dest!: map_of_SomeD intro: rev_image_eqI)

lemma keys_ok_register: "keys_ok w \<Longrightarrow> keys_ok (snd (registerResource r t ido now stamp w))"
  by (simp add: keys_ok_def registerResource_def Let_def AList.update_keys)

lemma queue_ok_register: "queue_ok w \<Longrightarrow> queue_ok (snd (registerResource r t ido now stamp w))"
  by (auto simp: queue_ok_def registered_def registerResource_def Let_def AList.update_conv')

lemma counts_ok_register: "counts_ok w \<Longrightarrow> counts_ok (snd (registerResource r t ido now stamp w))"
  by (auto simp: counts_ok_def registerResource_def Let_def AList.update_conv' split: if_splits)

lemma keys_ok_addReference: "keys_ok w \<Longrightarrow> keys_ok (addReference i now w)"
  by (auto simp: keys_ok_def addReference_def update_keys_present split: option.splits)

lemma queue_ok_addReference: "queue_ok w \<Longrightarrow> queue_ok (addReference i now w)"
  by (auto simp: queue_ok_def registered_def addReference_def AList.update_conv' split: option.splits)

lemma counts_ok_addReference: "counts_ok w \<Longrightarrow> counts_ok (addReference i now w)"
  by (fastforce simp: counts_ok_def addReference_def AList.update_conv' split: option.splits if_splits)

lemma keys_ok_removeReference: "keys_ok w \<Longrightarrow> keys_ok (removeReference i w)"
  by (auto simp: keys_ok_def removeReference_def Let_def update_keys_present split: option.splits)

lemma queue_ok_removeReference: "queue_ok w \<Longrightarrow> queue_ok (removeReference i w)"
  by (auto simp: queue_ok_def registered_def removeReference_def Let_def set_add_def AList.update_conv' split: option.splits)

lemma counts_ok_removeReference: "counts_ok w \<Longrightarrow> counts_ok (removeReference i w)"
  by (auto simp: counts_ok_def removeReference_def Let_def set_add_def AList.update_conv' split: option.splits if_splits)

lemma keys_ok_touch: "keys_ok w \<Longrightarrow> keys_ok (touchResource i now w)"
  by (auto simp: keys_ok_def touchResource_def update_keys_present split: option.splits)

lemma queue_ok_touch: "queue_ok w \<Longrightarrow> queue_ok (touchResource i now w)"
  by (auto simp: queue_ok_def registered_def touchResource_def AList.update_conv' split: option.splits)

lemma counts_ok_touch: "counts_ok w \<Longrightarrow> counts_ok (touchResource i now w)"
  by (auto simp: counts_ok_def touchResource_def AList.update_conv' split: option.splits if_splits)

lemma keys_ok_dispose: "keys_ok w \<Longrightarrow> keys_ok (snd (disposeResource i force w))"
  by (auto simp: keys_ok_def disposeResource_def AList.delete_keys distinct_removeAll split: option.splits)

lemma queue_ok_dispose: "queue_ok w \<Longrightarrow> queue_ok (snd (disposeResource i force w))"
  by (auto simp: queue_ok_def registered_def disposeResource_def set_delete_def AList.delete_conv' distinct_removeAll split: option.splits)

lemma counts_ok_dispose: "counts_ok w \<Longrightarrow> counts_ok (snd (disposeResource i force w))"
  by (auto simp: counts_ok_def disposeResource_def set_delete_def AList.delete_conv' split: option.splits if_splits)

lemma rm_inv_disposeEach: "rm_inv w \<Longrightarrow> rm_inv (snd (disposeEach force is w))"
proof (induction "is" arbitrary: w)
  case Nil
  then show ?case by simp
next
  case (Cons i "is")
  have "rm_inv (snd (disposeResource i force w))"
    using Cons.prems by (simp add: rm_inv_def keys_ok_dispose queue_ok_dispose counts_ok_dispose)
  from Cons.IH[OF this] show ?case
    by (simp add: split_beta Let_def)
qed

lemma rm_inv_step: "rm_inv w \<Longrightarrow> rm_inv (rm_step c w)"
proof (cases c)
  case (Register r t ido now stamp)
  assume "rm_inv w" then show ?thesis
    by (simp add: Register rm_inv_def keys_ok_register queue_ok_register counts_ok_register)
next
  case (AddReference i now)
  assume "rm_inv w" then show ?thesis
    by (simp add: AddReference rm_inv_def keys_ok_addReference queue_ok_addReference counts_ok_addReference)
next
  case (RemoveReference i)
  assume "rm_inv w" then show ?thesis
    by (simp add: RemoveReference rm_inv_def keys_ok_removeReference queue_ok_removeReference counts_ok_removeReference)
next
  case (Touch i now)
  assume "rm_inv w" then show ?thesis
    by (simp add: Touch rm_inv_def keys_ok_touch queue_ok_touch counts_ok_touch)
next
  case (Dispose i force)
  assume "rm_inv w" then show ?thesis
    by (simp add: Dispose rm_inv_def keys_ok_dispose queue_ok_dispose counts_ok_dispose)
next
  case ProcessQueue
  assume "rm_inv w" then show ?thesis
    by (simp add: ProcessQueue processDisposalQueue_def rm_inv_disposeEach)
next
  case (Cleanup options now)
  assume "rm_inv w" then show ?thesis
    by (simp add: Cleanup cleanup_def rm_inv_disposeEach)
next
  case DisposeAll
  assume "rm_inv w" then show ?thesis
    by (simp add: DisposeAll disposeAll_def rm_inv_disposeEach)
qed

lemma rm_inv_run: "rm_inv w \<Longrightarrow> rm_inv (rm_run calls w)"
  unfolding rm_run_def
  by (induction calls arbitrary: w) (simp_all add: rm_inv_step)

lemma rm_inv_new: "rm_inv \<lparr>store = h, rm = new_manager\<rparr>"
  by (simp add: rm_inv_def keys_ok_def queue_ok_def counts_ok_def new_manager_def registered_def)

lemma objects_known: "keys_ok w \<Longrightarrow> map_of (resources (rm w)) i = Some info \<Longrightarrow>
   \<exists>r. map_of (resourceObjects (rm w)) i = Some r"
proof -
  assume k: "keys_ok w" and s: "map_of (resources (rm w)) i = Some info"
  from s have "i \<in> set (map fst (resources (rm w)))"
    by (metis map_of_eq_None_iff option.distinct(1) set_map)
  with k have "i \<in> set (map fst (resourceObjects (rm w)))" by (simp add: keys_ok_def)
  then have "map_of (resourceObjects (rm w)) i \<noteq> None"
    by (simp add: map_of_eq_None_iff)
  then show ?thesis by blast
qed

lemma register_refCount:
  "map_option refCount (getResourceInfo (snd (registerResource r t ido now stamp w))
       (fst (registerResource r t ido now stamp w))) = Some 1"
  by (simp add: registerResource_def getResourceInfo_def Let_def AList.update_conv')

lemma dispose_refused:
  "getResourceInfo w i = Some info \<Longrightarrow> 0 < refCount info \<Longrightarrow> disposeResource i False w = (False, w)"
  by (simp add: disposeResource_def getResourceInfo_def split: option.splits)

lemma dispose_eligible:
  assumes "rm_inv w"
  shows "fst (disposeResource i False w) \<longleftrightarrow> map_option refCount (getResourceInfo w i) = Some 0"
proof (cases "map_of (resources (rm w)) i")
  case None
  then show ?thesis by (simp add: disposeResource_def getResourceInfo_def)
next
  case (Some info)
  from assms have "keys_ok w" and "counts_ok w" by (simp_all add: rm_inv_def)
  from objects_known[OF \<open>keys_ok w\<close> Some] obtain r where r: "map_of (resourceObjects (rm w)) i = Some r" ..
  from \<open>counts_ok w\<close> Some have "0 \<le> refCount info" by (simp add: counts_ok_def)
  then show ?thesis using Some r
    by (auto simp: disposeResource_def getResourceInfo_def)
qed

text \<open>
  Claim C2.  After any sequence of registry calls on a fresh registry, no reference count is
  negative; a registration leaves the registered id with count 1; a non-forced
  \<open>disposeResource\<close> succeeds exactly for a registered id whose count is 0; and on a
  resource whose count is positive it returns false and leaves the whole state (records,
  counts, objects, store) as it was.
\<close>

theorem refcount_invariant:
  assumes "w = rm_run calls \<lparr>store = h, rm = new_manager\<rparr>"
  shows "(\<forall>i info. getResourceInfo w i = Some info \<longrightarrow> 0 \<le> refCount info) \<and>
         (\<forall>r t ido now stamp.
            map_option refCount (getResourceInfo (snd (registerResource r t ido now stamp w))
               (fst (registerResource r t ido now stamp w))) = Some 1) \<and>
         (\<forall>i. fst (disposeResource i False w) \<longleftrightarrow> map_option refCount (getResourceInfo w i) = Some 0) \<and>
         (\<forall>i info. getResourceInfo w i = Some info \<and> 0 < refCount info \<longrightarrow>
            disposeResource i False w = (False, w))"
proof -
  have inv: "rm_inv w" unfolding assms by (rule rm_inv_run[OF rm_inv_new])
  then have "counts_ok w" by (simp add: rm_inv_def)
  then have a: "\<forall>i info. getResourceInfo w i = Some info \<longrightarrow> 0 \<le> refCount info"
    by (simp add: counts_ok_def getResourceInfo_def)
  show ?thesis
    using a register_refCount dispose_eligible[OF inv] dispose_refused by blast
qed

lemma demo_run:
  "rm_run [Register 0 RGeometry (Some ''g1'') 5 [], AddReference ''g1'' 6] \<lparr>store = demo_store, rm = new_manager\<rparr>
   = \<lparr>store = demo_store,
      rm = new_manager\<lparr>resources := [(''g1'', \<lparr>res_id = ''g1'', res_type = RGeometry, res_size = 36,
                                               createdAt = 5, lastUsed = 6, refCount = 2\<rparr>)],
                      resourceObjects := [(''g1'', 0)]\<rparr>\<rparr>"
  by (simp add: rm_run_def registerResource_def addReference_def new_manager_def Let_def
      estimateResourceSize_def demo_store_def geometry_bytes_def attribute_bytes_def)

theorem refcount_invariant_witness:
  "map_option refCount (getResourceInfo
      (rm_run [Register 0 RGeometry (Some ''g1'') 5 [], AddReference ''g1'' 6]
         \<lparr>store = demo_store, rm = new_manager\<rparr>) ''g1'') = Some 2 \<and>
   disposeResource ''g1'' False
      (rm_run [Register 0 RGeometry (Some ''g1'') 5 [], AddReference ''g1'' 6]
         \<lparr>store = demo_store, rm = new_manager\<rparr>)
   = (False, rm_run [Register 0 RGeometry (Some ''g1'') 5 [], AddReference ''g1'' 6]
         \<lparr>store = demo_store, rm = new_manager\<rparr>)"
proof -
  let ?w = "rm_run [Register 0 RGeometry (Some ''g1'') 5 [], AddReference ''g1'' 6]
         \<lparr>store = demo_store, rm = new_manager\<rparr>"
  have i: "getResourceInfo ?w ''g1'' = Some \<lparr>res_id = ''g1'', res_type = RGeometry, res_size = 36,
                                               createdAt = 5, lastUsed = 6, refCount = 2\<rparr>"
    by (simp add: demo_run getResourceInfo_def)
  from refcount_invariant[OF refl, of "[Register 0 RGeometry (Some ''g1'') 5 [], AddReference ''g1'' 6]" demo_store]
  have "\<forall>i info. getResourceInfo ?w i = Some info \<and> 0 < refCount info \<longrightarrow>
            disposeResource i False ?w = (False, ?w)" by blast
  with i show ?thesis by simp
qed

lemma queue_register: "disposalQueue (rm (snd (registerResource r t ido now stamp w))) = disposalQueue (rm w)"
  by (simp add: registerResource_def Let_def)

lemma queue_addReference: "disposalQueue (rm (addReference i now w)) = disposalQueue (rm w)"
  by (simp add: addReference_def split: option.splits)

lemma queue_touch: "disposalQueue (rm (touchResource i now w)) = disposalQueue (rm w)"
  by (simp add: touchResource_def split: option.splits)

lemma queue_removeReference: "set (disposalQueue (rm w)) \<subseteq> set (disposalQueue (rm (removeReference i w)))"
  by (auto simp: removeReference_def Let_def set_add_def split: option.splits)

lemma removeReference_queues:
  "getResourceInfo w i = Some info \<Longrightarrow> refCount info \<le> 1 \<Longrightarrow>
   i \<in> set (disposalQueue (rm (removeReference i w)))"
  by (auto simp: removeReference_def getResourceInfo_def Let_def set_add_def)

lemma dispose_leaves_queue:
  "i \<in> set (disposalQueue (rm w)) \<Longrightarrow> i \<notin> set (disposalQueue (rm (snd (disposeResource j force w)))) \<Longrightarrow>
   getResourceInfo (snd (disposeResource j force w)) i = None"
  by (auto simp: disposeResource_def getResourceInfo_def set_delete_def AList.delete_conv'
      split: option.splits if_splits)

lemma dispose_keeps_absent:
  "getResourceInfo w i = None \<Longrightarrow> getResourceInfo (snd (disposeResource j force w)) i = None"
  by (auto simp: disposeResource_def getResourceInfo_def AList.delete_conv' split: option.splits)

lemma disposeEach_keeps_absent:
  "getResourceInfo w i = None \<Longrightarrow> getResourceInfo (snd (disposeEach force js w)) i = None"
proof (induction js arbitrary: w)
  case Nil
  then show ?case by simp
next
  case (Cons j js)
  from Cons.IH[OF dispose_keeps_absent[OF Cons.prems]] show ?case
    by (simp add: split_beta Let_def)
qed

lemma disposeEach_leaves_queue:
  "i \<in> set (disposalQueue (rm w)) \<Longrightarrow> i \<notin> set (disposalQueue (rm (snd (disposeEach force js w)))) \<Longrightarrow>
   getResourceInfo (snd (disposeEach force js w)) i = None"
proof (induction js arbitrary: w)
  case Nil
  then show ?case by simp
next
  case (Cons j js)
  let ?w1 = "snd (disposeResource j force w)"
  have eq: "snd (disposeEach force (j # js) w) = snd (disposeEach force js ?w1)"
    by (simp add: split_beta Let_def)
  show ?case
  proof (cases "i \<in> set (disposalQueue (rm ?w1))")
    case True
    with Cons.IH[of ?w1] Cons.prems(2) show ?thesis unfolding eq by simp
  next
    case False
    from dispose_leaves_queue[OF Cons.prems(1) False]
    show ?thesis unfolding eq by (rule disposeEach_keeps_absent)
  qed
qed

lemma step_leaves_queue:
  assumes "i \<in> set (disposalQueue (rm w))" and "i \<notin> set (disposalQueue (rm (rm_step c w)))"
  shows "getResourceInfo (rm_step c w) i = None"
proof (cases c)
  case (Register r t ido now stamp)
  with assms show ?thesis by (simp add: queue_register)
next
  case (AddReference j now)
  with assms show ?thesis by (simp add: queue_addReference)
next
  case (RemoveReference j)
  with assms queue_removeReference[of w j] show ?thesis by auto
next
  case (Touch j now)
  with assms show ?thesis by (simp add: queue_touch)
next
  case (Dispose j force)
  with assms dispose_leaves_queue[of i w j force] show ?thesis by simp
next
  case ProcessQueue
  with assms disposeEach_leaves_queue[of i w False "disposalQueue (rm w)"] show ?thesis
    by (simp add: processDisposalQueue_def)
next
  case (Cleanup options now)
  with assms show ?thesis
    by (simp add: cleanup_def disposeEach_leaves_queue)
next
  case DisposeAll
  with assms show ?thesis
    by (simp add: disposeAll_def disposeEach_leaves_queue)
qed

lemma disposeEach_skips_referenced:
  "getResourceInfo w i = Some info \<Longrightarrow> 0 < refCount info \<Longrightarrow>
   getResourceInfo (snd (disposeEach False js w)) i = Some info \<and>
   (i \<in> set (disposalQueue (rm w)) \<longrightarrow> i \<in> set (disposalQueue (rm (snd (disposeEach False js w)))))"
proof (induction js arbitrary: w)
  case Nil
  then show ?case by simp
next
  case (Cons j js)
  let ?w1 = "snd (disposeResource j False w)"
  have a: "getResourceInfo ?w1 i = Some info"
    using Cons.prems
    by (auto simp: disposeResource_def getResourceInfo_def AList.delete_conv' split: option.splits)
  have b: "i \<in> set (disposalQueue (rm w)) \<longrightarrow> i \<in> set (disposalQueue (rm ?w1))"
    using Cons.prems
    by (auto simp: disposeResource_def getResourceInfo_def set_delete_def split: option.splits)
  from Cons.IH[OF a Cons.prems(2)] b show ?case
    by (simp add: split_beta Let_def)
qed

text \<open>
  Claim C1, as amended.  After any sequence of registry calls on a fresh registry: every
  registered id whose count is 0 is in the disposal queue, and every queued id is registered;
  \<open>removeReference\<close> queues an id whose count reaches 0; \<open>addReference\<close> leaves the
  queue as it is, so a queued id may have a positive count; an id leaves the queue only by
  being disposed; and \<open>processDisposalQueue\<close> skips a queued id whose count is positive,
  which stays registered and queued.
\<close>

theorem disposal_queue_covers_zero_counts:
  assumes "w = rm_run calls \<lparr>store = h, rm = new_manager\<rparr>"
  shows "(\<forall>i info. getResourceInfo w i = Some info \<and> refCount info = 0 \<longrightarrow>
            i \<in> set (disposalQueue (rm w))) \<and>
         (\<forall>i \<in> set (disposalQueue (rm w)). getResourceInfo w i \<noteq> None) \<and>
         (\<forall>i info. getResourceInfo w i = Some info \<and> refCount info \<le> 1 \<longrightarrow>
            i \<in> set (disposalQueue (rm (removeReference i w)))) \<and>
         (\<forall>i now. disposalQueue (rm (addReference i now w)) = disposalQueue (rm w)) \<and>
         (\<forall>c i. i \<in> set (disposalQueue (rm w)) \<and> i \<notin> set (disposalQueue (rm (rm_step c w))) \<longrightarrow>
            getResourceInfo (rm_step c w) i = None) \<and>
         (\<forall>i info. i \<in> set (disposalQueue (rm w)) \<and> getResourceInfo w i = Some info \<and> 0 < refCount info \<longrightarrow>
            getResourceInfo (snd (processDisposalQueue w)) i = Some info \<and>
            i \<in> set (disposalQueue (rm (snd (processDisposalQueue w)))))"
proof -
  have inv: "rm_inv w" unfolding assms by (rule rm_inv_run[OF rm_inv_new])
  then have c: "counts_ok w" and q: "queue_ok w" by (simp_all add: rm_inv_def)
  from c have 1: "\<forall>i info. getResourceInfo w i = Some info \<and> refCount info = 0 \<longrightarrow>
            i \<in> set (disposalQueue (rm w))"
    by (simp add: counts_ok_def getResourceInfo_def)
  from q have 2: "\<forall>i \<in> set (disposalQueue (rm w)). getResourceInfo w i \<noteq> None"
    by (auto simp: queue_ok_def registered_def getResourceInfo_def)
  have 6: "\<forall>i info. i \<in> set (disposalQueue (rm w)) \<and> getResourceInfo w i = Some info \<and> 0 < refCount info \<longrightarrow>
            getResourceInfo (snd (processDisposalQueue w)) i = Some info \<and>
            i \<in> set (disposalQueue (rm (snd (processDisposalQueue w))))"
    using disposeEach_skips_referenced[of w _ _ "disposalQueue (rm w)"]
    by (simp add: processDisposalQueue_def)
  show ?thesis
    using 1 2 6 removeReference_queues queue_addReference step_leaves_queue by blast
qed

lemma readd_run:
  "rm_run readd_calls \<lparr>store = demo_store, rm = new_manager\<rparr>
   = \<lparr>store = demo_store,
      rm = new_manager\<lparr>resources := [(''g1'', \<lparr>res_id = ''g1'', res_type = RGeometry, res_size = 36,
                                               createdAt = 5, lastUsed = 6, refCount = 1\<rparr>)],
                      resourceObjects := [(''g1'', 0)],
                      disposalQueue := [''g1'']\<rparr>\<rparr>"
  by (simp add: readd_calls_def rm_run_def registerResource_def addReference_def removeReference_def
      new_manager_def Let_def set_add_def
      estimateResourceSize_def demo_store_def geometry_bytes_def attribute_bytes_def)

text \<open>
  Claim C1 as stated fails: after registering \<open>g1\<close>, removing its reference and adding a
  reference again, \<open>g1\<close> is still in the disposal queue although its count is 1.
\<close>

theorem disposal_queue_exact_counterexample:
  "disposalQueue (rm (rm_run readd_calls \<lparr>store = demo_store, rm = new_manager\<rparr>)) = [''g1''] \<and>
   map_option refCount (getResourceInfo (rm_run readd_calls \<lparr>store = demo_store, rm = new_manager\<rparr>) ''g1'')
     = Some 1"
  by (simp add: readd_run getResourceInfo_def)

theorem disposal_queue_covers_zero_counts_witness:
  "''g1'' \<in> set (disposalQueue (rm (rm_run readd_calls \<lparr>store = demo_store, rm = new_manager\<rparr>))) \<and>
   map_option refCount (getResourceInfo (rm_run readd_calls \<lparr>store = demo_store, rm = new_manager\<rparr>) ''g1'')
     = Some 1 \<and>
   map_option refCount (getResourceInfo
      (snd (processDisposalQueue (rm_run readd_calls \<lparr>store = demo_store, rm = new_manager\<rparr>))) ''g1'')
     = Some 1 \<and>
   ''g1'' \<in> set (disposalQueue (rm (snd (processDisposalQueue
       (rm_run readd_calls \<lparr>store = demo_store, rm = new_manager\<rparr>)))))"
proof -
  let ?w = "rm_run readd_calls \<lparr>store = demo_store, rm = new_manager\<rparr>"
  let ?info = "\<lparr>res_id = ''g1'', res_type = RGeometry, res_size = 36,
                createdAt = 5, lastUsed = 6, refCount = 1\<rparr>"
  have q: "''g1'' \<in> set (disposalQueue (rm ?w))" by (simp add: readd_run)
  have i: "getResourceInfo ?w ''g1'' = Some ?info" by (simp add: readd_run getResourceInfo_def)
  have p: "0 < refCount ?info" by simp
  from disposal_queue_covers_zero_counts[OF refl, of readd_calls demo_store]
  have "\<forall>i info. i \<in> set (disposalQueue (rm ?w)) \<and> getResourceInfo ?w i = Some info \<and> 0 < refCount info \<longrightarrow>
            getResourceInfo (snd (processDisposalQueue ?w)) i = Some info \<and>
            i \<in> set (disposalQueue (rm (snd (processDisposalQueue ?w))))" by blast
  with q i p have "getResourceInfo (snd (processDisposalQueue ?w)) ''g1'' = Some ?info \<and>
            ''g1'' \<in> set (disposalQueue (rm (snd (processDisposalQueue ?w))))" by blast
  with q i show ?thesis by simp
qed

lemma dup_run:
  "rm_run dup_calls \<lparr>store = demo_store, rm = new_manager\<rparr>
   = \<lparr>store = demo_store,
      rm = new_manager\<lparr>resources := [(''g1'', \<lparr>res_id = ''g1'', res_type = RGeometry, res_size = 36,
                                               createdAt = 5, lastUsed = 6, refCount = 2\<rparr>)],
                      resourceObjects := [(''g1'', 0)]\<rparr>\<rparr>"
  by (simp add: dup_calls_def rm_run_def registerResource_def addReference_def new_manager_def Let_def
      estimateResourceSize_def demo_store_def geometry_bytes_def attribute_bytes_def)

text \<open>
  Claim C3 as stated fails: registering a material under the id \<open>g1\<close>, already held by a
  geometry with count 2, returns \<open>g1\<close> and replaces both the record (type, size, times,
  count 1) and the owning object.
\<close>

theorem duplicate_registration_counterexample:
  "getResourceInfo (rm_run dup_calls \<lparr>store = demo_store, rm = new_manager\<rparr>) ''g1''
     = Some \<lparr>res_id = ''g1'', res_type = RGeometry, res_size = 36, createdAt = 5, lastUsed = 6, refCount = 2\<rparr> \<and>
   map_of (resourceObjects (rm (rm_run dup_calls \<lparr>store = demo_store, rm = new_manager\<rparr>))) ''g1'' = Some 0 \<and>
   fst (registerResource 1 RMaterial (Some ''g1'') 7 []
          (rm_run dup_calls \<lparr>store = demo_store, rm = new_manager\<rparr>)) = ''g1'' \<and>
   getResourceInfo (snd (registerResource 1 RMaterial (Some ''g1'') 7 []
          (rm_run dup_calls \<lparr>store = demo_store, rm = new_manager\<rparr>))) ''g1''
     = Some \<lparr>res_id = ''g1'', res_type = RMaterial, res_size = 1024, createdAt = 7, lastUsed = 7, refCount = 1\<rparr> \<and>
   map_of (resourceObjects (rm (snd (registerResource 1 RMaterial (Some ''g1'') 7 []
          (rm_run dup_calls \<lparr>store = demo_store, rm = new_manager\<rparr>))))) ''g1'' = Some 1"
  unfolding dup_run
  by (simp add: getResourceInfo_def registerResource_def Let_def estimateResourceSize_def)

text \<open>
  Claim C3, as amended.  \<open>registerResource\<close> with an explicit non-empty id always returns
  that id and stores a fresh record (count 1, both times now, the new type and size) and the
  new owning object under it, whether or not the id was present; every other id, the
  disposal queue and the store are unchanged, and when the id was present the key order of
  the registry is unchanged.
\<close>

theorem duplicate_registration_overwrites:
  assumes "i \<noteq> []"
  shows "fst (registerResource r t (Some i) now stamp w) = i \<and>
         getResourceInfo (snd (registerResource r t (Some i) now stamp w)) i
           = Some \<lparr>res_id = i, res_type = t, res_size = estimateResourceSize (store w) r t,
                   createdAt = now, lastUsed = now, refCount = 1\<rparr> \<and>
         map_of (resourceObjects (rm (snd (registerResource r t (Some i) now stamp w)))) i = Some r \<and>
         (\<forall>j. j \<noteq> i \<longrightarrow>
            getResourceInfo (snd (registerResource r t (Some i) now stamp w)) j = getResourceInfo w j \<and>
            map_of (resourceObjects (rm (snd (registerResource r t (Some i) now stamp w)))) j
              = map_of (resourceObjects (rm w)) j) \<and>
         disposalQueue (rm (snd (registerResource r t (Some i) now stamp w))) = disposalQueue (rm w) \<and>
         store (snd (registerResource r t (Some i) now stamp w)) = store w \<and>
         (getResourceInfo w i \<noteq> None \<longrightarrow>
            map fst (resources (rm (snd (registerResource r t (Some i) now stamp w))))
              = map fst (resources (rm w)))"
  using assms
  by (auto simp: registerResource_def getResourceInfo_def Let_def AList.update_conv' update_keys_present)

theorem duplicate_registration_overwrites_witness:
  "''g1'' \<noteq> [] \<and>
   getResourceInfo (rm_run dup_calls \<lparr>store = demo_store, rm = new_manager\<rparr>) ''g1'' \<noteq> None \<and>
   getResourceInfo (snd (registerResource 1 RMaterial (Some ''g1'') 7 []
          (rm_run dup_calls \<lparr>store = demo_store, rm = new_manager\<rparr>))) ''g1''
     = Some \<lparr>res_id = ''g1'', res_type = RMaterial, res_size = 1024, createdAt = 7, lastUsed = 7, refCount = 1\<rparr> \<and>
   map fst (resources (rm (snd (registerResource 1 RMaterial (Some ''g1'') 7 []
          (rm_run dup_calls \<lparr>store = demo_store, rm = new_manager\<rparr>)))))
     = [''g1'']"
proof -
  let ?w = "rm_run dup_calls \<lparr>store = demo_store, rm = new_manager\<rparr>"
  have n: "''g1'' \<noteq> []" by simp
  have p: "getResourceInfo ?w ''g1'' \<noteq> None" by (simp add: dup_run getResourceInfo_def)
  have k: "map fst (resources (rm ?w)) = [''g1'']" by (simp add: dup_run)
  have e: "estimateResourceSize (store ?w) 1 RMaterial = 1024" by (simp add: estimateResourceSize_def)
  from duplicate_registration_overwrites[OF n, of 1 RMaterial 7 "[]" ?w] p k e
  show ?thesis by simp
qed

lemma disposed_set_node [simp]: "disposed (set_node r n h) = disposed h"
  by (simp add: set_node_def)

lemma disposed_remove_child [simp]: "disposed (remove_child p c h) = disposed h"
  by (simp add: remove_child_def Let_def split: option.splits)

lemma disposed_fold_call_dispose: "disposed (fold call_dispose rs h) = set rs \<union> disposed h"
  by (induction rs arbitrary: h) (auto simp: call_dispose_def)

lemma disposed_disposeMesh:
  "node_of h m = Some n \<Longrightarrow>
   disposed (disposeMesh m h) =
     (case geometry n of None \<Rightarrow> {} | Some g \<Rightarrow> {g}) \<union> set (material_refs (material n)) \<union> disposed h"
  by (auto simp: disposeMesh_def Let_def disposed_fold_call_dispose call_dispose_def split: option.splits)

lemma length_delete_present:
  "distinct (map fst al) \<Longrightarrow> map_of al k = Some v \<Longrightarrow> Suc (length (AList.delete k al)) = length al"
proof (induction al)
  case Nil
  then show ?case by simp
next
  case (Cons p al)
  show ?case
  proof (cases "fst p = k")
    case True
    with Cons.prems(1) have "k \<notin> fst ` set al" by auto
    then have "AList.delete k al = al" by (rule AList.delete_id)
    with True show ?thesis by (cases p) simp
  next
    case False
    with Cons show ?thesis by (cases p) auto
  qed
qed

section \<open>Properties of the progressive loader: chunking\<close>

lemma chunk_loop_ok:
  assumes "\<forall>c \<in> set chunks. chunk_ok h limit c"
    and "currentSize = mesh_sizes h currentChunk"
    and "1 < length currentChunk \<longrightarrow> currentSize \<le> limit"
  shows "\<forall>c \<in> set (chunk_loop stamps h limit p rest chunks currentChunk currentSize). chunk_ok h limit c"
  using assms
proof (induction rest arbitrary: chunks currentChunk currentSize)
  case Nil
  then show ?case by (auto simp: chunk_ok_def createChunk_def)
next
  case (Cons mesh rest)
  let ?sz = "estimateMeshSize h mesh"
  show ?case
  proof (cases "currentSize + ?sz > limit \<and> currentChunk \<noteq> []")
    case True
    have a: "\<forall>c \<in> set (chunks @ [createChunk (stamps (length chunks)) currentChunk p currentSize]).
               chunk_ok h limit c"
      using Cons.prems True by (auto simp: chunk_ok_def createChunk_def)
    have b: "?sz = mesh_sizes h [mesh]" by (simp add: mesh_sizes_def)
    have c: "1 < length [mesh] \<longrightarrow> ?sz \<le> limit" by simp
    from Cons.IH[OF a b c] True show ?thesis by (simp add: Let_def)
  next
    case False
    have b: "currentSize + ?sz = mesh_sizes h (currentChunk @ [mesh])"
      using Cons.prems(2) by (simp add: mesh_sizes_def)
    have c: "1 < length (currentChunk @ [mesh]) \<longrightarrow> currentSize + ?sz \<le> limit"
      using False by auto
    from Cons.IH[OF Cons.prems(1) b c] False show ?thesis by (auto simp: Let_def)
  qed
qed

lemma chunk_loop_members:
  "concat (map meshes (chunk_loop stamps h limit p rest chunks currentChunk currentSize))
   = concat (map meshes chunks) @ currentChunk @ rest"
  by (induction rest arbitrary: chunks currentChunk currentSize)
     (auto simp: createChunk_def Let_def)

lemma mesh_sizes_member: "m \<in> set ms \<Longrightarrow> estimateMeshSize h m \<le> mesh_sizes h ms"
  unfolding mesh_sizes_def by (induction ms) auto

text \<open>
  Claim C5.  For every list of meshes and every limit, the chunking step loses and splits
  nothing (the chunks' members, concatenated, are the input list); every chunk is non-empty
  and its estimated size is the sum of its members' size estimates; every chunk with more
  than one member has that sum at most \<open>chunkSizeLimit\<close>; and a mesh whose own size estimate
  exceeds the limit is the only member of its chunk.
\<close>

theorem chunk_size_bound:
  "concat (map meshes (createChunksFromMeshes stamps h opts ms p)) = ms \<and>
   (\<forall>c \<in> set (createChunksFromMeshes stamps h opts ms p).
      meshes c \<noteq> [] \<and> estimatedSize c = mesh_sizes h (meshes c) \<and>
      (1 < length (meshes c) \<longrightarrow> mesh_sizes h (meshes c) \<le> chunkSizeLimit opts) \<and>
      (\<forall>m \<in> set (meshes c). chunkSizeLimit opts < estimateMeshSize h m \<longrightarrow> meshes c = [m]))"
proof -
  let ?cs = "createChunksFromMeshes stamps h opts ms p"
  have ok: "\<forall>c \<in> set ?cs. chunk_ok h (chunkSizeLimit opts) c"
    unfolding createChunksFromMeshes_def
    by (rule chunk_loop_ok) (simp_all add: mesh_sizes_def)
  have mem: "concat (map meshes ?cs) = ms"
    unfolding createChunksFromMeshes_def by (simp add: chunk_loop_members)
  have single: "meshes c = [m]"
    if c: "c \<in> set ?cs" and m: "m \<in> set (meshes c)" and big: "chunkSizeLimit opts < estimateMeshSize h m"
    for c m
  proof -
    from ok c have k: "chunk_ok h (chunkSizeLimit opts) c" by blast
    from mesh_sizes_member[OF m, of h] big have "chunkSizeLimit opts < mesh_sizes h (meshes c)" by simp
    with k have "\<not> 1 < length (meshes c)" by (auto simp: chunk_ok_def)
    with m show ?thesis by (cases "meshes c") (auto split: if_splits)
  qed
  show ?thesis using ok mem single unfolding chunk_ok_def by blast
qed

lemma estimate_site: "estimateMeshSize site_store 11 = 1324" "estimateMeshSize site_store 12 = 1324"
  "estimateMeshSize site_store 13 = 1324"
  by (simp_all add: estimateMeshSize_def site_store_def node_of_def mesh_node_def box_geometry_def
      geometry_bytes_def attribute_bytes_def index_byteLength_def)

lemma site_chunks:
  "map meshes (createChunksFromMeshes (\<lambda>k. []) site_store
      (default_loading_options\<lparr>chunkSizeLimit := 3000\<rparr>) [11, 12, 13] HIGH) = [[11, 12], [13]]"
  by (simp add: createChunksFromMeshes_def estimate_site createChunk_def Let_def)

theorem chunk_size_bound_witness:
  "map meshes (createChunksFromMeshes (\<lambda>k. []) site_store
      (default_loading_options\<lparr>chunkSizeLimit := 3000\<rparr>) [11, 12, 13] HIGH) = [[11, 12], [13]] \<and>
   1 < length [11 :: nat, 12] \<and>
   mesh_sizes site_store [11, 12] \<le> 3000 \<and>
   map meshes (createChunksFromMeshes (\<lambda>k. []) site_store
      (default_loading_options\<lparr>chunkSizeLimit := 1000\<rparr>) [11] HIGH) = [[11]] \<and>
   1000 < estimateMeshSize site_store 11"
proof -
  let ?cs = "createChunksFromMeshes (\<lambda>k. []) site_store
      (default_loading_options\<lparr>chunkSizeLimit := 3000\<rparr>) [11, 12, 13] HIGH"
  let ?ds = "createChunksFromMeshes (\<lambda>k. []) site_store
      (default_loading_options\<lparr>chunkSizeLimit := 1000\<rparr>) [11] HIGH"
  have c: "hd ?cs \<in> set ?cs" and m: "meshes (hd ?cs) = [11, 12]"
    by (simp_all add: createChunksFromMeshes_def estimate_site createChunk_def Let_def)
  have l: "chunkSizeLimit (default_loading_options\<lparr>chunkSizeLimit := 3000\<rparr>) = 3000" by simp
  note t = chunk_size_bound[of "\<lambda>k. []" site_store "default_loading_options\<lparr>chunkSizeLimit := 3000\<rparr>" "[11, 12, 13]" HIGH]
  from conjunct2[OF t] c
  have "1 < length (meshes (hd ?cs)) \<longrightarrow> mesh_sizes site_store (meshes (hd ?cs))
          \<le> chunkSizeLimit (default_loading_options\<lparr>chunkSizeLimit := 3000\<rparr>)"
    by blast
  then have "1 < length (meshes (hd ?cs)) \<longrightarrow> mesh_sizes site_store (meshes (hd ?cs)) \<le> 3000"
    unfolding l .
  with m have a: "mesh_sizes site_store [11, 12] \<le> 3000" by simp
  have d: "map meshes ?ds = [[11]]"
    by (simp add: createChunksFromMeshes_def estimate_site createChunk_def Let_def)
  show ?thesis using site_chunks a d by (simp add: estimate_site)
qed

section \<open>Properties of the progressive loader: the loading loop\<close>

lemma length_set_add: "length (set_add x xs) \<le> Suc (length xs)"
  by (simp add: set_add_def)

lemma length_set_delete: "length (set_delete x xs) \<le> length xs"
  by (simp add: set_delete_def)

lemma loading_step_bound:
  assumes "loading_step w w'"
    and "length (activeLoads (loader w)) \<le> maxConcurrentChunks (options (loader w))"
  shows "length (activeLoads (loader w')) \<le> maxConcurrentChunks (options (loader w')) \<and>
         options (loader w') = options (loader w)"
  using assms
proof (cases rule: loading_step.cases)
  case (start chunk rest w1 now)
  have "length (set_add (chunk_id chunk) (activeLoads (loader w))) \<le> Suc (length (activeLoads (loader w)))"
    by (rule length_set_add)
  with start show ?thesis by (simp add: loadChunk_begin_def)
next
  case (finish chunk)
  have "length (set_delete (chunk_id chunk) (activeLoads (loader w))) \<le> length (activeLoads (loader w))"
    by (rule length_set_delete)
  with finish assms(2) show ?thesis by (simp add: loadChunk_complete_def)
next
  case (progress totalChunks)
  with assms(2) show ?thesis by simp
qed

lemma loading_run_bound:
  assumes "loading_step\<^sup>*\<^sup>* w w'"
    and "length (activeLoads (loader w)) \<le> maxConcurrentChunks (options (loader w))"
  shows "length (activeLoads (loader w')) \<le> maxConcurrentChunks (options (loader w')) \<and>
         options (loader w') = options (loader w)"
  using assms
proof (induction rule: rtranclp_induct)
  case base
  then show ?case by simp
next
  case (step y z)
  note ih = step.IH[OF step.prems]
  have a: "length (activeLoads (loader y)) \<le> maxConcurrentChunks (options (loader y))"
    by (rule conjunct1[OF ih])
  have b: "options (loader y) = options (loader w)"
    by (rule conjunct2[OF ih])
  note st = loading_step_bound[OF step.hyps(2) a]
  have c: "length (activeLoads (loader z)) \<le> maxConcurrentChunks (options (loader z))"
    by (rule conjunct1[OF st])
  have d: "options (loader z) = options (loader y)"
    by (rule conjunct2[OF st])
  from d b have "options (loader z) = options (loader w)" by (rule trans)
  with c show ?case by blast
qed

text \<open>
  Claim C4.  In every execution of the loading loop that begins with no active chunk,
  whatever the queue holds and in whatever order started chunks finish, the number of active
  chunks never exceeds \<open>maxConcurrentChunks\<close>.  Every state of the execution is covered,
  including the one right after a chunk became active and before anything else happened.
\<close>

theorem active_set_bounded:
  assumes "activeLoads (loader w0) = []" and "loading_run w0 w"
  shows "length (activeLoads (loader w)) \<le> maxConcurrentChunks (options (loader w0))"
proof -
  from assms(1) have "length (activeLoads (loader w0)) \<le> maxConcurrentChunks (options (loader w0))"
    by simp
  from loading_run_bound[OF assms(2)[unfolded loading_run_def] this] show ?thesis by auto
qed

lemma loadChunk_queue: "loadingQueue (loader (loadChunk now chunk w)) = loadingQueue (loader w)"
  by (simp add: loadChunk_def loadChunk_begin_def loadChunk_complete_def Let_def)

lemma loadChunk_is_run:
  assumes "loadingQueue (loader w) = chunk # rest"
    and "length (activeLoads (loader w)) < maxConcurrentChunks (options (loader w))"
  shows "loading_step\<^sup>*\<^sup>* w (loadChunk now chunk (w\<lparr>loader := (loader w)\<lparr>loadingQueue := rest\<rparr>\<rparr>))"
proof -
  let ?w0 = "w\<lparr>loader := (loader w)\<lparr>loadingQueue := rest\<rparr>\<rparr>"
  let ?w1 = "loadChunk_begin now chunk ?w0"
  let ?ws = "?w1\<lparr>loader := (loader ?w1)\<lparr>suspended := chunk # suspended (loader ?w1)\<rparr>\<rparr>"
  have s: "loading_step w ?ws" by (rule loading_step.start[OF assms refl])
  show ?thesis
  proof (cases "chunk_delay (options (loader ?w0)) chunk > 0")
    case True
    then have "loadChunk now chunk ?w0 = ?ws" by (simp add: loadChunk_def Let_def)
    with s show ?thesis by simp
  next
    case False
    have "chunk \<in> set (suspended (loader ?ws))" by simp
    from loading_step.finish[OF this]
    have "loading_step ?ws (loadChunk_complete chunk ?w1)" by simp
    moreover from False have "loadChunk now chunk ?w0 = loadChunk_complete chunk ?w1"
      by (simp add: loadChunk_def Let_def)
    ultimately show ?thesis using s by simp
  qed
qed

lemma startLoads_loop_is_run:
  "loadingQueue (loader w) = q \<Longrightarrow> loading_step\<^sup>*\<^sup>* w (startLoads_loop now q w)"
proof (induction q arbitrary: w)
  case Nil
  then have "w\<lparr>loader := (loader w)\<lparr>loadingQueue := []\<rparr>\<rparr> = w" by (cases w) auto
  then show ?case by simp
next
  case (Cons chunk rest)
  show ?case
  proof (cases "length (activeLoads (loader w)) < maxConcurrentChunks (options (loader w))")
    case True
    let ?w1 = "loadChunk now chunk (w\<lparr>loader := (loader w)\<lparr>loadingQueue := rest\<rparr>\<rparr>)"
    have a: "loading_step\<^sup>*\<^sup>* w ?w1" by (rule loadChunk_is_run[OF Cons.prems True])
    have "loadingQueue (loader ?w1) = rest" by (simp add: loadChunk_queue)
    from Cons.IH[OF this] a True show ?thesis by simp
  next
    case False
    from Cons.prems have "w\<lparr>loader := (loader w)\<lparr>loadingQueue := chunk # rest\<rparr>\<rparr> = w" by (cases w) auto
    with False show ?thesis by simp
  qed
qed

lemma startLoads_is_run: "loading_run w (startLoads now w)"
  unfolding loading_run_def startLoads_def by (rule startLoads_loop_is_run[OF refl])

lemma group_filter:
  "\<forall>m \<in> set ms. determineMeshPriority h m \<noteq> None \<Longrightarrow>
   groupMeshesByPriority h ms = Some (\<lambda>p. filter (priority_of h p) ms)"
  by (induction ms) (auto simp: priority_of_def fun_eq_iff)

lemma filter_only:
  "distinct xs \<Longrightarrow> a \<in> set xs \<Longrightarrow> \<forall>x \<in> set xs. P x \<longleftrightarrow> x = a \<Longrightarrow> filter P xs = [a]"
proof (induction xs)
  case Nil
  then show ?case by simp
next
  case (Cons x xs)
  show ?case
  proof (cases "x = a")
    case True
    with Cons.prems have "\<forall>y \<in> set xs. \<not> P y" by auto
    then have "filter P xs = []" by simp
    with True Cons.prems show ?thesis by simp
  next
    case False
    with Cons show ?thesis by auto
  qed
qed

lemma singleton_chunks:
  "createChunksFromMeshes stamps h opts [m] p = [createChunk (stamps 0) [m] p (estimateMeshSize h m)]"
  by (simp add: createChunksFromMeshes_def Let_def)

lemma no_chunks: "createChunksFromMeshes stamps h opts [] p = []"
  by (simp add: createChunksFromMeshes_def)

lemma priority_by_name:
  "node_of h m = Some n \<Longrightarrow> name n = ''foundation-a'' \<Longrightarrow> determineMeshPriority h m = Some CRITICAL"
  "node_of h m = Some n \<Longrightarrow> name n = ''panel-wall-1'' \<Longrightarrow> determineMeshPriority h m = Some HIGH"
  "node_of h m = Some n \<Longrightarrow> name n = ''trim-fixture-2'' \<Longrightarrow> determineMeshPriority h m = Some MEDIUM"
  by (simp_all add: determineMeshPriority_def toLowerCase_def toLowerChar_def Let_def)

lemma started_step:
  "loading_step w w' \<Longrightarrow>
   started_priorities w' @ map priority (loadingQueue (loader w'))
   = started_priorities w @ map priority (loadingQueue (loader w))"
  by (erule loading_step.cases)
     (simp_all add: started_priorities_def loadChunk_begin_def loadChunk_complete_def)

lemma started_run:
  "loading_step\<^sup>*\<^sup>* w w' \<Longrightarrow>
   started_priorities w' @ map priority (loadingQueue (loader w'))
   = started_priorities w @ map priority (loadingQueue (loader w))"
  by (induction rule: rtranclp_induct) (simp_all add: started_step)

lemma loadChunk_active:
  "length (activeLoads (loader (loadChunk now c w))) \<le> Suc (length (activeLoads (loader w)))"
proof -
  have a: "length (set_add (chunk_id c) (activeLoads (loader w))) \<le> Suc (length (activeLoads (loader w)))"
    by (rule length_set_add)
  have b: "length (set_delete (chunk_id c) (set_add (chunk_id c) (activeLoads (loader w))))
             \<le> length (set_add (chunk_id c) (activeLoads (loader w)))"
    by (rule length_set_delete)
  from a b show ?thesis
    by (simp add: loadChunk_def loadChunk_begin_def loadChunk_complete_def Let_def)
qed

lemma loadChunk_options: "options (loader (loadChunk now c w)) = options (loader w)"
  by (simp add: loadChunk_def loadChunk_begin_def loadChunk_complete_def Let_def)

lemma loadChunk_started:
  "started_priorities (loadChunk now c w) = started_priorities w @ [priority c]"
  by (simp add: started_priorities_def loadChunk_def loadChunk_begin_def loadChunk_complete_def Let_def)

lemma startLoads_loop_all:
  "length (activeLoads (loader w)) + length q \<le> maxConcurrentChunks (options (loader w)) \<Longrightarrow>
   started_priorities (startLoads_loop now q w) = started_priorities w @ map priority q"
proof (induction q arbitrary: w)
  case Nil
  then show ?case by (simp add: started_priorities_def)
next
  case (Cons c q)
  let ?w0 = "w\<lparr>loader := (loader w)\<lparr>loadingQueue := q\<rparr>\<rparr>"
  let ?w1 = "loadChunk now c ?w0"
  have lt: "length (activeLoads (loader w)) < maxConcurrentChunks (options (loader w))"
    using Cons.prems by simp
  have "length (activeLoads (loader ?w1)) \<le> Suc (length (activeLoads (loader ?w0)))"
    by (rule loadChunk_active)
  with Cons.prems have "length (activeLoads (loader ?w1)) + length q \<le> maxConcurrentChunks (options (loader ?w1))"
    by (simp add: loadChunk_options)
  from Cons.IH[OF this] have "started_priorities (startLoads_loop now q ?w1)
      = started_priorities ?w1 @ map priority q" .
  also have "started_priorities ?w1 = started_priorities w @ [priority c]"
    by (simp add: loadChunk_started) (simp add: started_priorities_def)
  finally show ?case using lt by simp
qed

lemma three_mesh_chunks:
  assumes ms: "distinct ms" "set ms = {a, b, c}"
    and a: "node_of h a = Some na" "name na = ''foundation-a''"
    and b: "node_of h b = Some nb" "name nb = ''panel-wall-1''"
    and c: "node_of h c = Some nc" "name nc = ''trim-fixture-2''"
  shows "groupMeshesByPriority h ms = Some (\<lambda>p. filter (priority_of h p) ms)"
    and "filter (priority_of h CRITICAL) ms = [a]"
    and "filter (priority_of h HIGH) ms = [b]"
    and "filter (priority_of h MEDIUM) ms = [c]"
    and "filter (priority_of h LOW) ms = []"
proof -
  note pa = priority_by_name(1)[OF a] and pb = priority_by_name(2)[OF b] and pc = priority_by_name(3)[OF c]
  have ne: "a \<noteq> b" "a \<noteq> c" "b \<noteq> c" using pa pb pc by auto
  show "groupMeshesByPriority h ms = Some (\<lambda>p. filter (priority_of h p) ms)"
    by (rule group_filter) (use ms pa pb pc in auto)
  show "filter (priority_of h CRITICAL) ms = [a]"
    by (rule filter_only[OF ms(1)]) (use ms pa pb pc ne in \<open>auto simp: priority_of_def\<close>)
  show "filter (priority_of h HIGH) ms = [b]"
    by (rule filter_only[OF ms(1)]) (use ms pa pb pc ne in \<open>auto simp: priority_of_def\<close>)
  show "filter (priority_of h MEDIUM) ms = [c]"
    by (rule filter_only[OF ms(1)]) (use ms pa pb pc ne in \<open>auto simp: priority_of_def\<close>)
  show "filter (priority_of h LOW) ms = []"
    using ms pa pb pc by (auto simp: priority_of_def filter_empty_conv)
qed

lemma sort_three:
  "priority c1 = CRITICAL \<Longrightarrow> priority c2 = HIGH \<Longrightarrow> priority c3 = MEDIUM \<Longrightarrow>
   sort_key (\<lambda>c. priority_value (priority c)) [c1, c2, c3] = [c1, c2, c3]"
  by simp

text \<open>
  Claim C6, as amended.  A scene whose meshes are exactly three, named \<open>foundation-a\<close>,
  \<open>panel-wall-1\<close> and \<open>trim-fixture-2\<close> (in any traversal order), yields exactly three
  chunks, one per mesh, queued with the priorities Critical, High, Medium: the name
  \<open>trim-fixture-2\<close> contains \<open>trim\<close> and is classified Medium.  In every execution of the
  loading loop the chunks started so far, followed by the chunks still queued, are Critical,
  High, Medium, so the chunks are activated in that order; and with a cap of at least three
  and no active chunk all three are started, in that order, as soon as the loop is entered.
\<close>

theorem three_named_meshes_chunk_order:
  assumes "distinct (filter (isMesh (store (reg w))) (traverse_all (store (reg w)) sc))"
    and "set (filter (isMesh (store (reg w))) (traverse_all (store (reg w)) sc)) = {a, b, c}"
    and "node_of (store (reg w)) a = Some na" and "name na = ''foundation-a''"
    and "node_of (store (reg w)) b = Some nb" and "name nb = ''panel-wall-1''"
    and "node_of (store (reg w)) c = Some nc" and "name nc = ''trim-fixture-2''"
    and "started_priorities w = []"
  shows "\<exists>w1. enqueueModel stamps sc w = Some w1 \<and>
           map priority (loadingQueue (loader w1)) = [CRITICAL, HIGH, MEDIUM] \<and>
           map meshes (loadingQueue (loader w1)) = [[a], [b], [c]] \<and>
           (\<forall>w'. loading_run w1 w' \<longrightarrow>
              started_priorities w' @ map priority (loadingQueue (loader w')) = [CRITICAL, HIGH, MEDIUM]) \<and>
           (activeLoads (loader w) = [] \<and> 3 \<le> maxConcurrentChunks (options (loader w)) \<longrightarrow>
              started_priorities (startLoads now w1) = [CRITICAL, HIGH, MEDIUM])"
proof -
  let ?h = "store (reg w)"
  let ?ms = "filter (isMesh ?h) (traverse_all ?h sc)"
  let ?ca = "createChunk (stamps CRITICAL 0) [a] CRITICAL (estimateMeshSize ?h a)"
  let ?cb = "createChunk (stamps HIGH 0) [b] HIGH (estimateMeshSize ?h b)"
  let ?cc = "createChunk (stamps MEDIUM 0) [c] MEDIUM (estimateMeshSize ?h c)"
  let ?w1 = "w\<lparr>loader := (loader w)\<lparr>loadingQueue := [?ca, ?cb, ?cc]\<rparr>\<rparr>"
  note g = three_mesh_chunks[OF assms(1-8)]
  have an: "analyzeAndChunkModel stamps ?h (options (loader w)) sc = Some [?ca, ?cb, ?cc]"
    by (simp add: analyzeAndChunkModel_def g singleton_chunks no_chunks del: filter_filter)
  have srt: "sort_key (\<lambda>c. priority_value (priority c)) [?ca, ?cb, ?cc] = [?ca, ?cb, ?cc]"
    by (rule sort_three) (simp_all add: createChunk_def)
  have e: "enqueueModel stamps sc w = Some ?w1"
    by (simp only: enqueueModel_def an srt option.case)
  have p: "map priority (loadingQueue (loader ?w1)) = [CRITICAL, HIGH, MEDIUM]"
    by (simp add: createChunk_def)
  have m: "map meshes (loadingQueue (loader ?w1)) = [[a], [b], [c]]"
    by (simp add: createChunk_def)
  have s1: "started_priorities ?w1 = []"
    using assms(9) by (simp add: started_priorities_def)
  have r: "started_priorities w' @ map priority (loadingQueue (loader w')) = [CRITICAL, HIGH, MEDIUM]"
    if "loading_run ?w1 w'" for w'
    using started_run[OF that[unfolded loading_run_def]] s1 p by simp
  have f: "started_priorities (startLoads now ?w1) = [CRITICAL, HIGH, MEDIUM]"
    if "activeLoads (loader w) = [] \<and> 3 \<le> maxConcurrentChunks (options (loader w))"
  proof -
    have "length (activeLoads (loader ?w1)) + length (loadingQueue (loader ?w1))
            \<le> maxConcurrentChunks (options (loader ?w1))"
      using that by simp
    from startLoads_loop_all[OF this, of now] s1 p show ?thesis
      by (simp add: startLoads_def)
  qed
  show ?thesis
  proof (intro exI[of _ ?w1] conjI allI impI)
    show "enqueueModel stamps sc w = Some ?w1" by (rule e)
    show "map priority (loadingQueue (loader ?w1)) = [CRITICAL, HIGH, MEDIUM]" by (rule p)
    show "map meshes (loadingQueue (loader ?w1)) = [[a], [b], [c]]" by (rule m)
    show "started_priorities w' @ map priority (loadingQueue (loader w')) = [CRITICAL, HIGH, MEDIUM]"
      if "loading_run ?w1 w'" for w' using that by (rule r)
    show "started_priorities (startLoads now ?w1) = [CRITICAL, HIGH, MEDIUM]"
      if "activeLoads (loader w) = [] \<and> 3 \<le> maxConcurrentChunks (options (loader w))"
      using that by (rule f)
  qed
qed

lemma site_world_store: "store (reg site_world) = site_store"
  by (simp add: site_world_def initialize_def new_world_def)

lemma site_world_loader:
  "loader site_world = new_loader\<lparr>scene := Some 10, camera := Some 18\<rparr>"
  by (simp add: site_world_def initialize_def new_world_def)

lemma site_nodes:
  "node_of site_store 11 = Some (mesh_node ''foundation-a'' ''m11'' 10 14 17)"
  "node_of site_store 12 = Some (mesh_node ''panel-wall-1'' ''m12'' 10 15 17)"
  "node_of site_store 13 = Some (mesh_node ''trim-fixture-2'' ''m13'' 10 16 17)"
  "node_of site_store 10 = Some (plain_node SceneClass ''site'' ''s10'' [11, 12, 13])"
  "node_of site_store 18 = Some (plain_node CameraClass ''camera'' ''c18'' [])"
  by (simp_all add: node_of_def site_store_def)

lemma site_traverse: "traverse_all site_store 10 = [10, 11, 12, 13]"
proof -
  have n: "next_ref site_store = Suc (Suc 17)" by (simp add: site_store_def)
  have "traverse (Suc (Suc k)) site_store 10 = [10, 11, 12, 13]" for k
    by (simp add: site_nodes plain_node_def mesh_node_def)
  then show ?thesis by (simp only: traverse_all_def n)
qed

lemma site_meshes: "filter (isMesh site_store) (traverse_all site_store 10) = [11, 12, 13]"
  by (simp add: site_traverse isMesh_def is_class_def site_nodes plain_node_def mesh_node_def)

lemma site_names:
  "name (mesh_node ''foundation-a'' ''m11'' 10 14 17) = ''foundation-a''"
  "name (mesh_node ''panel-wall-1'' ''m12'' 10 15 17) = ''panel-wall-1''"
  "name (mesh_node ''trim-fixture-2'' ''m13'' 10 16 17) = ''trim-fixture-2''"
  by (simp_all add: mesh_node_def)

lemma site_started: "started_priorities site_world = []"
  by (simp add: started_priorities_def site_world_loader new_loader_def)

lemma show_nat_small: "show_nat 0 = ''0''" "show_nat (Suc 0) = ''1''" "show_nat 2 = ''2''"
  by code_simp+

text \<open>
  Claim C6 as stated fails: for the scene of the three named meshes the third chunk, holding
  \<open>trim-fixture-2\<close>, has priority Medium, not Low.
\<close>

theorem three_named_meshes_counterexample:
  "analyzeAndChunkModel site_stamps site_store default_loading_options 10 =
     Some [\<lparr>chunk_id = ''chunk_0_0'', priority = CRITICAL, meshes = [11], estimatedSize = 1324, loaded = False\<rparr>,
           \<lparr>chunk_id = ''chunk_1_0'', priority = HIGH, meshes = [12], estimatedSize = 1324, loaded = False\<rparr>,
           \<lparr>chunk_id = ''chunk_2_0'', priority = MEDIUM, meshes = [13], estimatedSize = 1324, loaded = False\<rparr>]"
proof -
  have d: "determineMeshPriority site_store 11 = Some CRITICAL"
    "determineMeshPriority site_store 12 = Some HIGH"
    "determineMeshPriority site_store 13 = Some MEDIUM"
    by (rule priority_by_name(1)[OF site_nodes(1) site_names(1)],
        rule priority_by_name(2)[OF site_nodes(2) site_names(2)],
        rule priority_by_name(3)[OF site_nodes(3) site_names(3)])
  show ?thesis
    by (simp add: analyzeAndChunkModel_def site_meshes d createChunksFromMeshes_def estimate_site
        createChunk_def site_stamps_def show_nat_small Let_def)
qed

theorem three_named_meshes_chunk_order_witness:
  "distinct (filter (isMesh (store (reg site_world))) (traverse_all (store (reg site_world)) 10)) \<and>
   set (filter (isMesh (store (reg site_world))) (traverse_all (store (reg site_world)) 10)) = {11, 12, 13} \<and>
   started_priorities site_world = [] \<and>
   activeLoads (loader site_world) = [] \<and> 3 \<le> maxConcurrentChunks (options (loader site_world)) \<and>
   (\<exists>w1. enqueueModel site_stamps 10 site_world = Some w1 \<and>
          map priority (loadingQueue (loader w1)) = [CRITICAL, HIGH, MEDIUM] \<and>
          map meshes (loadingQueue (loader w1)) = [[11], [12], [13]] \<and>
          started_priorities (startLoads 0 w1) = [CRITICAL, HIGH, MEDIUM])"
proof -
  have a: "distinct (filter (isMesh (store (reg site_world))) (traverse_all (store (reg site_world)) 10))"
    by (simp add: site_world_store site_meshes)
  have b: "set (filter (isMesh (store (reg site_world))) (traverse_all (store (reg site_world)) 10)) = {11, 12, 13}"
    by (simp add: site_world_store site_meshes)
  have n: "node_of (store (reg site_world)) 11 = Some (mesh_node ''foundation-a'' ''m11'' 10 14 17)"
    "node_of (store (reg site_world)) 12 = Some (mesh_node ''panel-wall-1'' ''m12'' 10 15 17)"
    "node_of (store (reg site_world)) 13 = Some (mesh_node ''trim-fixture-2'' ''m13'' 10 16 17)"
    by (simp_all add: site_world_store site_nodes)
  have c: "activeLoads (loader site_world) = [] \<and> 3 \<le> maxConcurrentChunks (options (loader site_world))"
    by (simp add: site_world_loader new_loader_def default_loading_options_def)
  from three_named_meshes_chunk_order[OF a b n(1) site_names(1) n(2) site_names(2) n(3) site_names(3)
      site_started, of site_stamps 0]
  obtain w1 where w: "enqueueModel site_stamps 10 site_world = Some w1 \<and>
        map priority (loadingQueue (loader w1)) = [CRITICAL, HIGH, MEDIUM] \<and>
        map meshes (loadingQueue (loader w1)) = [[11], [12], [13]] \<and>
        (\<forall>w'. loading_run w1 w' \<longrightarrow>
              started_priorities w' @ map priority (loadingQueue (loader w')) = [CRITICAL, HIGH, MEDIUM]) \<and>
        (activeLoads (loader site_world) = [] \<and> 3 \<le> maxConcurrentChunks (options (loader site_world)) \<longrightarrow>
         started_priorities (startLoads 0 w1) = [CRITICAL, HIGH, MEDIUM])" ..
  note w1 = conjunct1[OF w] conjunct1[OF conjunct2[OF w]] conjunct1[OF conjunct2[OF conjunct2[OF w]]]
    conjunct2[OF conjunct2[OF conjunct2[OF conjunct2[OF w]]]]
  from w1(4) c have "started_priorities (startLoads 0 w1) = [CRITICAL, HIGH, MEDIUM]" by (rule mp)
  with w1(1-3) have "\<exists>w1. enqueueModel site_stamps 10 site_world = Some w1 \<and>
          map priority (loadingQueue (loader w1)) = [CRITICAL, HIGH, MEDIUM] \<and>
          map meshes (loadingQueue (loader w1)) = [[11], [12], [13]] \<and>
          started_priorities (startLoads 0 w1) = [CRITICAL, HIGH, MEDIUM]"
    by (intro exI[of _ w1] conjI)
  with a b c site_started show ?thesis by (intro conjI) (rule a b site_started conjunct1[OF c] conjunct2[OF c] | assumption)+
qed

lemma site_started_active:
  "activeLoads (loader (startLoads 0 site_queued)) = [''chunk_1_0'', ''chunk_2_0'']"
  by (simp add: startLoads_def site_queued_def site_queue_def site_world_loader new_loader_def
      default_loading_options_def loadChunk_def loadChunk_begin_def loadChunk_complete_def
      chunk_delay_def set_add_def set_delete_def Let_def)

theorem active_set_bounded_witness:
  "activeLoads (loader site_queued) = [] \<and>
   loading_run site_queued (startLoads 0 site_queued) \<and>
   activeLoads (loader (startLoads 0 site_queued)) = [''chunk_1_0'', ''chunk_2_0''] \<and>
   length (activeLoads (loader (startLoads 0 site_queued))) \<le> 3"
proof -
  have a: "activeLoads (loader site_queued) = []"
    by (simp add: site_queued_def site_world_loader new_loader_def)
  have r: "loading_run site_queued (startLoads 0 site_queued)" by (rule startLoads_is_run)
  have m: "maxConcurrentChunks (options (loader site_queued)) = 3"
    by (simp add: site_queued_def site_world_loader new_loader_def default_loading_options_def)
  from active_set_bounded[OF a r] m a r site_started_active show ?thesis by simp
qed

section \<open>Properties of the render optimizer: adaptive quality\<close>

lemma lowdpi_optimizer:
  "optimizer lowdpi_world =
     new_optimizer\<lparr>renderer := Some \<lparr>pixelRatio = 1 / 2, shadowMapEnabled = True, shadowMapSoft = True,
                                       frustumCulled = True, sortObjects = True\<rparr>,
                    opt_scene := Some 10, opt_camera := Some 18\<rparr>"
  by (simp add: lowdpi_world_def optimizer_initialize_def setupRendererOptimizations_def
      site_world_def initialize_def new_world_def)

text \<open>
  Claim C7 as stated fails: with a pixel ratio of 1/2 and 10 frames per second against a
  target of 30, the evaluation leaves the pixel ratio at 1/2, while
  \<open>max(1, current_ratio \<times> 0.8)\<close> is 1.
\<close>

theorem adaptive_quality_counterexample:
  "fps slow_frame < targetFPS (settings (optimizer lowdpi_world)) * (8 / 10) \<and>
   map_option pixelRatio (renderer (optimizer lowdpi_world)) = Some (1 / 2) \<and>
   map_option pixelRatio (renderer (optimizer (adaptiveOptimization (1 / 2) (Some slow_frame) lowdpi_world)))
     = Some (1 / 2) \<and>
   max 1 ((1 / 2) * (8 / 10)) = (1 :: real)"
  by (simp add: adaptiveOptimization_def reduceQuality_def lowdpi_optimizer new_optimizer_def
      default_settings_def slow_frame_def Let_def)

text \<open>
  Claim C7, as amended.  On an evaluation with adaptive quality enabled, a renderer attached
  and a metrics sample available: if the sampled FPS is below 0.8 times the target, the
  pixel ratio becomes \<open>max(1, current \<times> 0.8)\<close> when the current ratio is above 1 and is
  unchanged otherwise, and shadows are disabled; if the FPS is above 1.2 times the target
  (and not below 0.8 times it, which is tested first), the pixel ratio becomes
  \<open>min(cap, current \<times> 1.1)\<close> when the current ratio is below the cap and is unchanged
  otherwise, and shadows are enabled, where the cap is \<open>min(devicePixelRatio, 2)\<close>; if the
  FPS lies between the two thresholds the state is unchanged.  Without a sample the state is
  unchanged, and no evaluation touches anything but the renderer.
\<close>

theorem adaptive_quality_step:
  assumes "adaptiveQuality (settings (optimizer w))" and "renderer (optimizer w) = Some r"
  shows "(fps m < targetFPS (settings (optimizer w)) * (8 / 10) \<longrightarrow>
            renderer (optimizer (adaptiveOptimization dpr (Some m) w)) =
              Some (r\<lparr>pixelRatio := (if pixelRatio r > 1 then max 1 (pixelRatio r * (8 / 10))
                                       else pixelRatio r),
                      shadowMapEnabled := False\<rparr>)) \<and>
         (fps m > targetFPS (settings (optimizer w)) * (12 / 10) \<and>
          \<not> fps m < targetFPS (settings (optimizer w)) * (8 / 10) \<longrightarrow>
            renderer (optimizer (adaptiveOptimization dpr (Some m) w)) =
              Some (r\<lparr>pixelRatio := (if pixelRatio r < min dpr 2
                                       then min (min dpr 2) (pixelRatio r * (11 / 10))
                                       else pixelRatio r),
                      shadowMapEnabled := True\<rparr>)) \<and>
         (targetFPS (settings (optimizer w)) * (8 / 10) \<le> fps m \<and>
          fps m \<le> targetFPS (settings (optimizer w)) * (12 / 10) \<longrightarrow>
            adaptiveOptimization dpr (Some m) w = w) \<and>
         adaptiveOptimization dpr None w = w \<and>
         reg (adaptiveOptimization dpr (Some m) w) = reg w \<and>
         loader (adaptiveOptimization dpr (Some m) w) = loader w"
  using assms
  by (auto simp: adaptiveOptimization_def reduceQuality_def increaseQuality_def Let_def)

theorem adaptive_quality_step_witness:
  "adaptiveQuality (settings (optimizer lowdpi_world)) \<and>
   renderer (optimizer lowdpi_world) =
     Some \<lparr>pixelRatio = 1 / 2, shadowMapEnabled = True, shadowMapSoft = True,
           frustumCulled = True, sortObjects = True\<rparr> \<and>
   fps slow_frame < targetFPS (settings (optimizer lowdpi_world)) * (8 / 10) \<and>
   renderer (optimizer (adaptiveOptimization (1 / 2) (Some slow_frame) lowdpi_world)) =
     Some \<lparr>pixelRatio = 1 / 2, shadowMapEnabled = False, shadowMapSoft = True,
           frustumCulled = True, sortObjects = True\<rparr>"
proof -
  let ?r = "\<lparr>pixelRatio = 1 / 2, shadowMapEnabled = True, shadowMapSoft = True,
           frustumCulled = True, sortObjects = True\<rparr>"
  have a: "adaptiveQuality (settings (optimizer lowdpi_world))"
    by (simp add: lowdpi_optimizer new_optimizer_def default_settings_def)
  have b: "renderer (optimizer lowdpi_world) = Some ?r"
    by (simp add: lowdpi_optimizer)
  have c: "fps slow_frame < targetFPS (settings (optimizer lowdpi_world)) * (8 / 10)"
    by (simp add: lowdpi_optimizer new_optimizer_def default_settings_def slow_frame_def)
  from conjunct1[OF adaptive_quality_step[OF a b, of slow_frame "1 / 2"]] c
  have "renderer (optimizer (adaptiveOptimization (1 / 2) (Some slow_frame) lowdpi_world)) =
          Some (?r\<lparr>pixelRatio := (if pixelRatio ?r > 1 then max 1 (pixelRatio ?r * (8 / 10))
                                       else pixelRatio ?r),
                      shadowMapEnabled := False\<rparr>)"
    by (rule mp)
  then have "renderer (optimizer (adaptiveOptimization (1 / 2) (Some slow_frame) lowdpi_world)) =
     Some \<lparr>pixelRatio = 1 / 2, shadowMapEnabled = False, shadowMapSoft = True,
           frustumCulled = True, sortObjects = True\<rparr>"
    by simp
  with a b c show ?thesis by (intro conjI)
qed

section \<open>Distance-based visibility and frustum culling\<close>

lemma node_of_set_node: "node_of (set_node r n h) x = (if x = r then Some n else node_of h x)"
  by (simp add: node_of_def set_node_def)

lemma position_set_visible: "position_of (set_visible r v h) x = position_of h x"
  by (auto simp: position_of_def set_visible_def node_of_set_node split: option.splits)

lemma visible_set_visible:
  "is_visible (set_visible r v h) x = (if x = r \<and> node_of h r \<noteq> None then v else is_visible h x)"
  by (auto simp: is_visible_def set_visible_def node_of_set_node split: option.splits)

lemma updateMeshVisibility_eq:
  "updateMeshVisibility cp p m h =
     (case position_of h m of
        None \<Rightarrow> h
      | Some pm \<Rightarrow> set_visible m (distance_shown p (distanceTo cp pm)) h)"
  by (auto simp: updateMeshVisibility_def position_of_def distance_shown_def Let_def
      split: option.splits)

lemma position_updateMesh: "position_of (updateMeshVisibility cp p x h) y = position_of h y"
  by (simp add: updateMeshVisibility_eq position_set_visible split: option.splits)

lemma visible_updateMesh:
  "position_of h m = Some pm \<Longrightarrow>
   is_visible (updateMeshVisibility cp p x h) m =
     (if x = m then distance_shown p (distanceTo cp pm) else is_visible h m)"
  by (auto simp: updateMeshVisibility_eq visible_set_visible position_of_def split: option.splits)

lemma position_fold_update:
  "position_of (fold (updateMeshVisibility cp p) ms h) y = position_of h y"
  by (induction ms arbitrary: h) (simp_all add: position_updateMesh)

lemma visible_fold_update:
  "position_of h m = Some pm \<Longrightarrow>
   is_visible (fold (updateMeshVisibility cp p) ms h) m =
     (if m \<in> set ms then distance_shown p (distanceTo cp pm) else is_visible h m)"
proof (induction ms arbitrary: h)
  case Nil
  then show ?case by simp
next
  case (Cons x ms)
  have p1: "position_of (updateMeshVisibility cp p x h) m = Some pm"
    using Cons.prems by (simp add: position_updateMesh)
  from Cons.IH[OF p1] visible_updateMesh[OF Cons.prems, of cp p x] show ?case by auto
qed

lemma position_update_chunks: "position_of (update_chunks cp cs h) y = position_of h y"
  unfolding update_chunks_def
  by (induction cs arbitrary: h) (auto simp: position_fold_update)

lemma visible_update_chunks:
  assumes "position_of h m = Some pm"
    and "\<forall>kc \<in> set cs. m \<in> set (meshes (snd kc)) \<longrightarrow> distance_shown (priority (snd kc)) (distanceTo cp pm) = v"
  shows "is_visible (update_chunks cp cs h) m =
           (if \<exists>kc \<in> set cs. m \<in> set (meshes (snd kc)) then v else is_visible h m)"
  using assms
proof (induction cs arbitrary: h)
  case Nil
  then show ?case by (simp add: update_chunks_def)
next
  case (Cons kc cs)
  let ?h1 = "fold (updateMeshVisibility cp (priority (snd kc))) (meshes (snd kc)) h"
  have u: "update_chunks cp (kc # cs) h = update_chunks cp cs ?h1"
    by (simp add: update_chunks_def split_beta)
  have p1: "position_of ?h1 m = Some pm"
    using Cons.prems(1) by (simp add: position_fold_update)
  have r: "\<forall>kc \<in> set cs. m \<in> set (meshes (snd kc)) \<longrightarrow> distance_shown (priority (snd kc)) (distanceTo cp pm) = v"
    using Cons.prems(2) by simp
  have f: "m \<in> set (meshes (snd kc)) \<longrightarrow> distance_shown (priority (snd kc)) (distanceTo cp pm) = v"
    using Cons.prems(2) by simp
  from Cons.IH[OF p1 r] visible_fold_update[OF Cons.prems(1), of cp "priority (snd kc)" "meshes (snd kc)"] f
  show ?case unfolding u by auto
qed

lemma updateDistance_store:
  assumes "distanceBasedLoading (options (loader w))" and "camera (loader w) = Some cam"
    and "scene (loader w) = Some sc" and "position_of (store (reg w)) cam = Some cp"
  shows "store (reg (updateDistanceBasedLoading w)) = update_chunks cp (loadedChunks (loader w)) (store (reg w))"
  using assms
  by (auto simp: updateDistanceBasedLoading_def update_chunks_def position_of_def split: option.splits)

lemma position_cull_fold:
  "position_of (fold (\<lambda>r h. if isMesh h r then set_visible r (f r) h else h) rs h) y = position_of h y"
  by (induction rs arbitrary: h) (simp_all add: position_set_visible)

lemma position_performFrustumCulling:
  "position_of (store (reg (performFrustumCulling f w))) y = position_of (store (reg w)) y"
  by (simp add: performFrustumCulling_def position_cull_fold split: option.splits)

lemma loader_performFrustumCulling: "loader (performFrustumCulling f w) = loader w"
  by (simp add: performFrustumCulling_def split: option.splits)

lemma shown_cases:
  "distance_shown CRITICAL d" "distance_shown HIGH d"
  "d \<le> 100 \<Longrightarrow> distance_shown MEDIUM d" "d \<le> 50 \<Longrightarrow> distance_shown LOW d"
  by (simp_all add: distance_shown_def)

text \<open>
  Claim C9, as amended.  The distance-update call acts only when distance-based loading is
  enabled and the loader has its camera and scene.  Then, for a mesh of the store that is a
  member of a completed chunk and of completed chunks of that priority only, the call leaves
  the mesh visible exactly when the distance test for that priority passes, whatever its
  visibility was before: always for Critical and High, within 100 units for Medium, within
  50 units for Low.  In particular a Critical or High member hidden by the quality
  controller's frustum culling is visible again after the distance-update call.  When
  distance-based loading is disabled, or the loader has no camera or no scene, the call
  changes nothing at all.
\<close>

theorem distance_update_shows_members:
  assumes "distanceBasedLoading (options (loader w))"
    and "camera (loader w) = Some cam" and "scene (loader w) = Some sc"
    and "position_of (store (reg w)) cam = Some cp"
    and "position_of (store (reg w)) m = Some pm"
    and "(cid, c) \<in> set (loadedChunks (loader w))" and "m \<in> set (meshes c)"
    and "\<forall>kc \<in> set (loadedChunks (loader w)). m \<in> set (meshes (snd kc)) \<longrightarrow> priority (snd kc) = priority c"
  shows "is_visible (store (reg (updateDistanceBasedLoading w))) m
           = distance_shown (priority c) (distanceTo cp pm) \<and>
         (priority c = CRITICAL \<or> priority c = HIGH \<longrightarrow>
            is_visible (store (reg (updateDistanceBasedLoading w))) m \<and>
            is_visible (store (reg (updateDistanceBasedLoading (performFrustumCulling intersects w)))) m) \<and>
         (priority c = MEDIUM \<and> distanceTo cp pm \<le> 100 \<longrightarrow>
            is_visible (store (reg (updateDistanceBasedLoading w))) m) \<and>
         (priority c = LOW \<and> distanceTo cp pm \<le> 50 \<longrightarrow>
            is_visible (store (reg (updateDistanceBasedLoading w))) m) \<and>
         (\<forall>w'. \<not> distanceBasedLoading (options (loader w')) \<or> camera (loader w') = None \<or>
                scene (loader w') = None \<longrightarrow>
              updateDistanceBasedLoading w' = w')"
proof -
  let ?v = "distance_shown (priority c) (distanceTo cp pm)"
  have all: "\<forall>kc \<in> set (loadedChunks (loader w)). m \<in> set (meshes (snd kc)) \<longrightarrow>
               distance_shown (priority (snd kc)) (distanceTo cp pm) = ?v"
    using assms(8) by auto
  have ex: "\<exists>kc \<in> set (loadedChunks (loader w)). m \<in> set (meshes (snd kc))"
    using assms(6,7) by force
  have main: "is_visible (store (reg (updateDistanceBasedLoading w))) m = ?v"
    unfolding updateDistance_store[OF assms(1-4)]
    using visible_update_chunks[OF assms(5) all] ex by simp
  let ?w = "performFrustumCulling intersects w"
  have g: "distanceBasedLoading (options (loader ?w))" "camera (loader ?w) = Some cam"
    "scene (loader ?w) = Some sc"
    using assms(1-3) by (simp_all add: loader_performFrustumCulling)
  have pc: "position_of (store (reg ?w)) cam = Some cp" and pm: "position_of (store (reg ?w)) m = Some pm"
    using assms(4,5) by (simp_all add: position_performFrustumCulling)
  have all': "\<forall>kc \<in> set (loadedChunks (loader ?w)). m \<in> set (meshes (snd kc)) \<longrightarrow>
               distance_shown (priority (snd kc)) (distanceTo cp pm) = ?v"
    using all by (simp add: loader_performFrustumCulling)
  have ex': "\<exists>kc \<in> set (loadedChunks (loader ?w)). m \<in> set (meshes (snd kc))"
    using ex by (simp add: loader_performFrustumCulling)
  have culled: "is_visible (store (reg (updateDistanceBasedLoading ?w))) m = ?v"
    unfolding updateDistance_store[OF g pc]
    using visible_update_chunks[OF pm all'] ex' by simp
  have off: "\<forall>w'. \<not> distanceBasedLoading (options (loader w')) \<or> camera (loader w') = None \<or>
                  scene (loader w') = None \<longrightarrow>
                updateDistanceBasedLoading w' = w'"
    by (auto simp: updateDistanceBasedLoading_def)
  have shown: "(priority c = CRITICAL \<or> priority c = HIGH \<longrightarrow>
            is_visible (store (reg (updateDistanceBasedLoading w))) m \<and>
            is_visible (store (reg (updateDistanceBasedLoading (performFrustumCulling intersects w)))) m) \<and>
         (priority c = MEDIUM \<and> distanceTo cp pm \<le> 100 \<longrightarrow>
            is_visible (store (reg (updateDistanceBasedLoading w))) m) \<and>
         (priority c = LOW \<and> distanceTo cp pm \<le> 50 \<longrightarrow>
            is_visible (store (reg (updateDistanceBasedLoading w))) m)"
    using main culled shown_cases by auto
  show ?thesis
    using main shown off by (intro conjI) blast+
qed

lemma site_view_loader: "loader site_view = new_loader\<lparr>scene := Some 10, camera := Some 18, loadingQueue := site_queue\<rparr>"
  by (simp add: site_view_def optimizer_initialize_def setupRendererOptimizations_def site_queued_def
       site_world_loader)

lemma site_view_store: "store (reg site_view) = site_store"
  by (simp add: site_view_def optimizer_initialize_def setupRendererOptimizations_def site_queued_def
       site_world_store)

lemma site_running_loader:
  "loadedChunks (loader site_running) =
     [(''chunk_0_0'', \<lparr>chunk_id = ''chunk_0_0'', priority = CRITICAL, meshes = [11], estimatedSize = 1324, loaded = True\<rparr>)]"
  "options (loader site_running) = default_loading_options"
  "camera (loader site_running) = Some 18" "scene (loader site_running) = Some 10"
  by (simp_all add: site_running_def startLoads_def site_view_loader site_queue_def new_loader_def
      default_loading_options_def loadChunk_def loadChunk_begin_def loadChunk_complete_def
      chunk_delay_def set_add_def set_delete_def Let_def)

lemma site_running_nodes:
  "node_of (store (reg site_running)) 11 = Some (mesh_node ''foundation-a'' ''m11'' 10 14 17)"
  "node_of (store (reg site_running)) 18 = Some (plain_node CameraClass ''camera'' ''c18'' [])"
  "node_of (store (reg site_running)) 10 = Some (plain_node SceneClass ''site'' ''s10'' [11, 12, 13])"
  "node_of (store (reg site_running)) 12 = Some ((mesh_node ''panel-wall-1'' ''m12'' 10 15 17)\<lparr>visible := False\<rparr>)"
  "node_of (store (reg site_running)) 13 = Some ((mesh_node ''trim-fixture-2'' ''m13'' 10 16 17)\<lparr>visible := False\<rparr>)"
  by (simp_all add: site_running_def startLoads_def site_view_loader site_view_store site_queue_def new_loader_def
      default_loading_options_def loadChunk_def loadChunk_begin_def loadChunk_complete_def
      chunk_delay_def set_add_def set_delete_def Let_def registerMesh_def registerResource_def
      site_nodes set_visible_def node_of_set_node mesh_node_def plain_node_def material_refs_def
      site_store_def node_of_def set_node_def)

lemma site_running_next: "next_ref (store (reg site_running)) = Suc (Suc 17)"
  by (simp add: site_running_def startLoads_def site_view_loader site_view_store site_queue_def new_loader_def
      default_loading_options_def loadChunk_def loadChunk_begin_def loadChunk_complete_def
      chunk_delay_def set_add_def set_delete_def Let_def registerMesh_def registerResource_def
      site_nodes set_visible_def node_of_set_node mesh_node_def plain_node_def material_refs_def
      site_store_def node_of_def set_node_def)

lemma optimizer_loadChunk: "optimizer (loadChunk now c w) = optimizer w"
  by (simp add: loadChunk_def loadChunk_begin_def loadChunk_complete_def Let_def)

lemma optimizer_startLoads_loop: "optimizer (startLoads_loop now q w) = optimizer w"
  by (induction q arbitrary: w) (simp_all add: optimizer_loadChunk)

lemma site_running_optimizer:
  "opt_scene (optimizer site_running) = Some 10" "opt_camera (optimizer site_running) = Some 18"
  by (simp_all add: site_running_def startLoads_def optimizer_startLoads_loop
      site_view_def optimizer_initialize_def setupRendererOptimizations_def)

lemma site_running_traverse: "traverse_all (store (reg site_running)) 10 = [10, 11, 12, 13]"
proof -
  have "traverse (Suc (Suc k)) (store (reg site_running)) 10 = [10, 11, 12, 13]" for k
    by (simp add: site_running_nodes plain_node_def mesh_node_def)
  then show ?thesis by (simp only: traverse_all_def site_running_next)
qed

lemma node_of_set_visible:
  "node_of (set_visible r v h) x =
     (if x = r then map_option (\<lambda>n. n\<lparr>visible := v\<rparr>) (node_of h r) else node_of h x)"
  by (auto simp: set_visible_def node_of_set_node split: option.splits)

lemma site_running_culled:
  "is_visible (store (reg site_running)) 11 \<and>
   \<not> is_visible (store (reg (performFrustumCulling nothing_in_view site_running))) 11"
  by (simp add: performFrustumCulling_def site_running_optimizer site_running_traverse
      isMesh_def is_class_def is_visible_def node_of_set_visible site_running_nodes
      plain_node_def mesh_node_def nothing_in_view_def)

lemma site_off_facts:
  "store (reg site_off) = store (reg site_running)" "optimizer site_off = optimizer site_running"
  "loadedChunks (loader site_off) = [(''chunk_0_0'', foundation_chunk)]"
  "\<not> distanceBasedLoading (options (loader site_off))"
  by (simp_all add: site_off_def updateOptions_def site_running_loader foundation_chunk_def
      distance_loading_off_def)

text \<open>
  Claim C9 as stated fails: with distance-based loading switched off, the distance-update
  call returns at once, and the member of the completed Critical chunk that frustum culling
  has hidden stays hidden.
\<close>

theorem distance_update_counterexample:
  "loadedChunks (loader site_off) = [(''chunk_0_0'', foundation_chunk)] \<and>
   priority foundation_chunk = CRITICAL \<and> meshes foundation_chunk = [11] \<and>
   \<not> is_visible (store (reg (performFrustumCulling nothing_in_view site_off))) 11 \<and>
   \<not> is_visible (store (reg (updateDistanceBasedLoading (performFrustumCulling nothing_in_view site_off)))) 11"
proof -
  have c: "\<not> is_visible (store (reg (performFrustumCulling nothing_in_view site_off))) 11"
    using site_running_culled
    by (simp add: performFrustumCulling_def site_off_facts split: option.splits prod.splits)
  have u: "updateDistanceBasedLoading (performFrustumCulling nothing_in_view site_off)
             = performFrustumCulling nothing_in_view site_off"
    by (simp add: updateDistanceBasedLoading_def loader_performFrustumCulling site_off_facts)
  show ?thesis using c unfolding u by (simp add: site_off_facts foundation_chunk_def)
qed

theorem distance_update_shows_members_witness:
  "distanceBasedLoading (options (loader site_running)) \<and>
   camera (loader site_running) = Some 18 \<and> scene (loader site_running) = Some 10 \<and>
   (''chunk_0_0'', foundation_chunk) \<in> set (loadedChunks (loader site_running)) \<and>
   11 \<in> set (meshes foundation_chunk) \<and> priority foundation_chunk = CRITICAL \<and>
   \<not> is_visible (store (reg (performFrustumCulling nothing_in_view site_running))) 11 \<and>
   is_visible (store (reg (updateDistanceBasedLoading (performFrustumCulling nothing_in_view site_running)))) 11 \<and>
   \<not> distanceBasedLoading (options (loader site_off)) \<and>
   updateDistanceBasedLoading site_off = site_off"
proof -
  have a: "distanceBasedLoading (options (loader site_running))"
    by (simp add: site_running_loader default_loading_options_def)
  have b: "camera (loader site_running) = Some 18" and c: "scene (loader site_running) = Some 10"
    by (simp_all add: site_running_loader)
  have d: "position_of (store (reg site_running)) 18 = Some (0, 0, 0)"
    and e: "position_of (store (reg site_running)) 11 = Some (0, 0, 0)"
    by (simp_all add: position_of_def site_running_nodes plain_node_def mesh_node_def)
  have f: "(''chunk_0_0'', foundation_chunk) \<in> set (loadedChunks (loader site_running))"
    by (simp add: site_running_loader foundation_chunk_def)
  have g: "11 \<in> set (meshes foundation_chunk)" and p: "priority foundation_chunk = CRITICAL"
    by (simp_all add: foundation_chunk_def)
  have h: "\<forall>kc \<in> set (loadedChunks (loader site_running)).
             11 \<in> set (meshes (snd kc)) \<longrightarrow> priority (snd kc) = priority foundation_chunk"
    by (simp add: site_running_loader foundation_chunk_def)
  note t = distance_update_shows_members[OF a b c d e f g h, of nothing_in_view]
  from conjunct1[OF conjunct2[OF t]] p
  have v: "is_visible (store (reg (updateDistanceBasedLoading (performFrustumCulling nothing_in_view site_running)))) 11"
    by blast
  note off = conjunct2[OF conjunct2[OF conjunct2[OF conjunct2[OF t]]]]
  have o: "\<not> distanceBasedLoading (options (loader site_off))"
    by (rule site_off_facts(4))
  from off o have u: "updateDistanceBasedLoading site_off = site_off"
    by blast
  from a b c f g p site_running_culled v o u show ?thesis by (intro conjI) blast+
qed

section \<open>Level-of-detail variants and the registry\<close>

lemma disposed_alloc [simp]: "disposed (snd (alloc ob h)) = disposed h"
  by (simp add: alloc_def)

lemma disposed_set_visible [simp]: "disposed (set_visible r v h) = disposed h"
  by (simp add: set_visible_def split: option.splits)

lemma disposed_add_child [simp]: "disposed (add_child p c h) = disposed h"
  by (simp add: add_child_def Let_def split: option.splits)

lemma disposed_addLevel [simp]: "disposed (addLevel lod ob d h) = disposed h"
  by (simp add: addLevel_def split: option.splits)

lemma disposed_clone_geometry [simp]: "disposed (snd (clone_geometry uuids g h)) = disposed h"
  by (simp add: clone_geometry_def)

lemma disposed_simplifyGeometry [simp]: "disposed (snd (simplifyGeometry targets uuids gr red h)) = disposed h"
  by (simp add: simplifyGeometry_def Let_def split_beta split: option.splits three.splits)

lemma disposed_simplifyMaterial [simp]: "disposed (snd (simplifyMaterial slot h)) = disposed h"
  by (simp add: simplifyMaterial_def Let_def split_beta split: option.splits three.splits)

lemma disposed_new_Mesh [simp]: "disposed (snd (new_Mesh uuids g slot f h)) = disposed h"
  by (simp add: new_Mesh_def Let_def split_beta split: material_slot.splits)

lemma disposed_createSimplifiedMesh [simp]:
  "disposed (snd (createSimplifiedMesh targets uuids m red s h)) = disposed h"
  by (simp add: createSimplifiedMesh_def Let_def split_beta split: option.splits three.splits)

lemma disposed_addSimplifiedLevel [simp]:
  "disposed (addSimplifiedLevel targets uuids m lod config i h) = disposed h"
proof -
  obtain r h1 where c: "createSimplifiedMesh targets uuids m (nth_opt (geometryReductions config) i)
             (case nth_opt (materialSimplifications config) i of Some b \<Rightarrow> b | None \<Rightarrow> False) h = (r, h1)"
    by (cases "createSimplifiedMesh targets uuids m (nth_opt (geometryReductions config) i)
             (case nth_opt (materialSimplifications config) i of Some b \<Rightarrow> b | None \<Rightarrow> False) h")
  from disposed_createSimplifiedMesh[of targets uuids m "nth_opt (geometryReductions config) i"
      "(case nth_opt (materialSimplifications config) i of Some b \<Rightarrow> b | None \<Rightarrow> False)" h] c
  have "disposed h1 = disposed h" by simp
  with c show ?thesis by (cases r) (simp_all add: addSimplifiedLevel_def)
qed

lemma disposed_fold_levels:
  "disposed (fold (addSimplifiedLevel targets uuids m lod config) is h) = disposed h"
  by (induction "is" arbitrary: h) simp_all

lemma disposed_fold_visible:
  "disposed (fold (\<lambda>r. set_visible r v) rs h) = disposed h"
  by (induction rs arbitrary: h) simp_all

lemma disposed_new_LOD [simp]: "disposed (snd (new_LOD uuids h)) = disposed h"
  by (simp add: new_LOD_def)

lemma createLOD_rm: "rm (reg (snd (createLODForMesh targets uuids mesh config w))) = rm (reg w)"
  by (simp add: createLODForMesh_def Let_def split_beta)

lemma createLOD_disposed:
  "disposed (store (reg (snd (createLODForMesh targets uuids mesh config w)))) = disposed (store (reg w))"
  by (simp add: createLODForMesh_def Let_def split_beta disposed_fold_levels)

lemma createLOD_lodObjects:
  "map_of (lodObjects (optimizer (snd (createLODForMesh targets uuids mesh config w)))) mesh
     = Some (fst (createLODForMesh targets uuids mesh config w))"
  by (simp add: createLODForMesh_def Let_def split_beta AList.update_conv')

lemma optimizer_dispose_rm: "rm (reg (optimizer_dispose dpr w)) = rm (reg w)"
  by (simp add: optimizer_dispose_def optimizer_reset_def Let_def)

lemma optimizer_dispose_disposed:
  "disposed (store (reg (optimizer_dispose dpr w))) = disposed (store (reg w))"
  by (simp add: optimizer_dispose_def optimizer_reset_def Let_def disposed_fold_visible
      split: option.splits)

lemma optimizer_dispose_cleared:
  "lodObjects (optimizer (optimizer_dispose dpr w)) = []"
  "renderer (optimizer (optimizer_dispose dpr w)) = None"
  by (simp_all add: optimizer_dispose_def optimizer_reset_def Let_def split: option.splits)

lemma optimizer_dispose_detached:
  "opt_scene (optimizer (optimizer_dispose dpr w)) = None"
  "opt_camera (optimizer (optimizer_dispose dpr w)) = None"
  by (simp_all add: optimizer_dispose_def optimizer_reset_def Let_def split: option.splits)

lemma optimizer_dispose_renderer:
  "renderer (optimizer w) = Some r \<Longrightarrow>
   detached_renderer (optimizer_dispose dpr w)
     = Some (r\<lparr>pixelRatio := min dpr 2, shadowMapEnabled := True\<rparr>)"
  by (simp add: optimizer_dispose_def optimizer_reset_def Let_def)

lemma traverse_nodes: "x \<in> set (traverse k h r) \<Longrightarrow> node_of h x \<noteq> None"
proof (induction k arbitrary: r)
  case 0
  then show ?case by simp
next
  case (Suc k)
  show ?case
  proof (cases "node_of h r")
    case None
    with Suc.prems show ?thesis by simp
  next
    case (Some n)
    with Suc.prems have "x = r \<or> (\<exists>c \<in> set (children n). x \<in> set (traverse k h c))"
      by auto
    then show ?thesis
    proof
      assume "x = r"
      with Some show ?thesis by simp
    next
      assume "\<exists>c \<in> set (children n). x \<in> set (traverse k h c)"
      then obtain c where "x \<in> set (traverse k h c)" by blast
      then show ?thesis by (rule Suc.IH)
    qed
  qed
qed

lemma visible_fold_shown:
  "node_of h x \<noteq> None \<Longrightarrow>
   is_visible (fold (\<lambda>r. set_visible r True) rs h) x = (x \<in> set rs \<or> is_visible h x)"
proof (induction rs arbitrary: h)
  case Nil
  then show ?case by simp
next
  case (Cons a rs)
  have n: "node_of (set_visible a True h) x \<noteq> None"
    using Cons.prems by (cases "x = a") (simp_all add: node_of_set_visible)
  have step: "is_visible (fold (\<lambda>r. set_visible r True) (a # rs) h) x
                = (x \<in> set rs \<or> is_visible (set_visible a True h) x)"
    using Cons.IH[OF n] by simp
  show ?case
  proof (cases "x = a")
    case True
    with Cons.prems have "is_visible (set_visible a True h) x"
      by (simp add: visible_set_visible)
    with True step show ?thesis by simp
  next
    case False
    then have "is_visible (set_visible a True h) x = is_visible h x"
      by (simp add: visible_set_visible)
    with False step show ?thesis by simp
  qed
qed

lemma optimizer_dispose_visible:
  assumes "opt_scene (optimizer w) = Some sc" and "x \<in> set (traverse_all (store (reg w)) sc)"
  shows "is_visible (store (reg (optimizer_dispose dpr w))) x"
proof -
  have n: "node_of (store (reg w)) x \<noteq> None"
    using assms(2) traverse_nodes by (simp add: traverse_all_def)
  have s: "store (reg (optimizer_dispose dpr w))
             = fold (\<lambda>r. set_visible r True) (traverse_all (store (reg w)) sc) (store (reg w))"
    using assms(1) by (simp add: optimizer_dispose_def optimizer_reset_def Let_def split: option.splits)
  show ?thesis
    unfolding s using visible_fold_shown[OF n] assms(2) by simp
qed

text \<open>
  Claim C8, as amended.  The quality controller never calls the Resource Registry.
  \<open>createLODForMesh\<close> records the new LOD object in the controller's own \<open>lodObjects\<close>
  map and leaves the registry (records, owning objects, disposal queue, hence the
  statistics) exactly as it was; the controller's teardown clears \<open>lodObjects\<close>, detaches
  renderer, scene and camera, and likewise leaves the registry as it was; and neither of
  the two calls \<open>dispose()\<close> on any object, so no LOD variant is reclaimed.  What the
  teardown does reset: the renderer it held is left with the pixel ratio
  \<open>min devicePixelRatio 2\<close> and with shadows enabled, and every object that the traversal
  of the scene it held visits is visible afterwards.
\<close>

theorem lod_variants_bypass_registry:
  "rm (reg (snd (createLODForMesh targets uuids mesh config w))) = rm (reg w) \<and>
   getResourceStats (reg (snd (createLODForMesh targets uuids mesh config w))) = getResourceStats (reg w) \<and>
   disposed (store (reg (snd (createLODForMesh targets uuids mesh config w)))) = disposed (store (reg w)) \<and>
   map_of (lodObjects (optimizer (snd (createLODForMesh targets uuids mesh config w)))) mesh
     = Some (fst (createLODForMesh targets uuids mesh config w)) \<and>
   rm (reg (optimizer_dispose dpr w)) = rm (reg w) \<and>
   getResourceStats (reg (optimizer_dispose dpr w)) = getResourceStats (reg w) \<and>
   disposed (store (reg (optimizer_dispose dpr w))) = disposed (store (reg w)) \<and>
   lodObjects (optimizer (optimizer_dispose dpr w)) = [] \<and>
   renderer (optimizer (optimizer_dispose dpr w)) = None \<and>
   opt_scene (optimizer (optimizer_dispose dpr w)) = None \<and>
   opt_camera (optimizer (optimizer_dispose dpr w)) = None \<and>
   (\<forall>r. renderer (optimizer w) = Some r \<longrightarrow>
        detached_renderer (optimizer_dispose dpr w)
          = Some (r\<lparr>pixelRatio := min dpr 2, shadowMapEnabled := True\<rparr>)) \<and>
   (\<forall>sc x. opt_scene (optimizer w) = Some sc \<and> x \<in> set (traverse_all (store (reg w)) sc) \<longrightarrow>
           is_visible (store (reg (optimizer_dispose dpr w))) x)"
  using createLOD_rm[of targets uuids mesh config w] createLOD_disposed[of targets uuids mesh config w]
    createLOD_lodObjects[of targets uuids mesh config w] optimizer_dispose_rm[of dpr w]
    optimizer_dispose_disposed[of dpr w] optimizer_dispose_cleared[of dpr w]
    optimizer_dispose_detached[of dpr w] optimizer_dispose_renderer[of w _ dpr]
    optimizer_dispose_visible[of w _ _ dpr]
  by (simp add: getResourceStats_def)

lemma decimate_box:
  "decimate 3 [0, 1, 2, 2, 3, 0] = [0, 2, 3]"
  "decimate 1 [0, 1, 2, 2, 3, 0] = [0]"
  "decimate 0 [0, 1, 2, 2, 3, 0] = [0]"
  by (simp_all add: decimate_def Let_def upt_conv_Cons)

text \<open>
  Thirty indices under a reduction of 0.9: the double arithmetic gives a target count of 2,
  hence a step of 15, and the indices at 0 and 15 are kept.
\<close>

lemma decimate_thirty: "decimate 2 [0 ..< 30] = [0, 15]"
  by (simp add: decimate_def Let_def upt_conv_Cons del: upt.simps)

lemma site_lod_levels:
  "map_option levels (node_of (store (reg (snd (createLODForMesh box_targets lod_uuids 11 defaultLODConfig site_view)))) 19)
     = Some [(11, 0), (22, 20), (26, 50), (30, 100)]"
  by (simp add: createLODForMesh_def new_LOD_def alloc_def addLevel_def add_child_def remove_child_def
      addSimplifiedLevel_def createSimplifiedMesh_def clone_geometry_def simplifyGeometry_def
      simplifyMaterial_def new_Mesh_def nth_opt_def defaultLODConfig_def site_view_store
      site_store_def node_of_def set_node_def mesh_node_def plain_node_def box_geometry_def
      position_attribute_def box_targets_def index_count_def decimate_box Let_def upt_conv_Cons)

lemma site_lod_variant:
  "map_option obj_class (node_of (store (reg (snd (createLODForMesh box_targets lod_uuids 11 defaultLODConfig site_view)))) 22)
     = Some MeshClass"
  by (simp add: createLODForMesh_def new_LOD_def alloc_def addLevel_def add_child_def remove_child_def
      addSimplifiedLevel_def createSimplifiedMesh_def clone_geometry_def simplifyGeometry_def
      simplifyMaterial_def new_Mesh_def nth_opt_def defaultLODConfig_def site_view_store
      site_store_def node_of_def set_node_def mesh_node_def plain_node_def box_geometry_def
      position_attribute_def box_targets_def index_count_def decimate_box Let_def upt_conv_Cons)

lemma site_slow_facts:
  "renderer (optimizer site_slow)
     = Some \<lparr>pixelRatio = 1, shadowMapEnabled = False, shadowMapSoft = True,
              frustumCulled = True, sortObjects = True\<rparr>"
  "opt_scene (optimizer site_slow) = Some 10"
  "store (reg site_slow) = store (reg site_running)"
  by (simp_all add: site_slow_def adaptiveOptimization_def reduceQuality_def slow_frame_def Let_def
      site_running_def startLoads_def optimizer_startLoads_loop site_view_def
      optimizer_initialize_def setupRendererOptimizations_def site_queued_def site_world_def
      initialize_def new_world_def new_optimizer_def default_settings_def)

lemma site_running_hidden: "\<not> is_visible (store (reg site_running)) 12"
  by (simp add: is_visible_def site_running_nodes mesh_node_def)

lemma site_view_registry:
  "rm (reg site_view) = new_manager" "disposed (store (reg site_view)) = {}"
  by (simp_all add: site_view_def optimizer_initialize_def setupRendererOptimizations_def
      site_queued_def site_world_def initialize_def new_world_def site_store_def)

text \<open>
  Claim C8 as stated fails: \<open>createLODForMesh\<close> with the default configuration on the
  foundation mesh creates the LOD object 19 with the three variant meshes 22, 26 and 30,
  and the registry holds no record afterwards; after the controller's teardown the registry
  is still empty and \<open>dispose()\<close> has been called on nothing.
\<close>

theorem lod_variants_counterexample:
  "map_option levels (node_of (store (reg (snd (createLODForMesh box_targets lod_uuids 11 defaultLODConfig site_view)))) 19)
     = Some [(11, 0), (22, 20), (26, 50), (30, 100)] \<and>
   map_option obj_class (node_of (store (reg (snd (createLODForMesh box_targets lod_uuids 11 defaultLODConfig site_view)))) 22)
     = Some MeshClass \<and>
   resourceObjects (rm (reg (snd (createLODForMesh box_targets lod_uuids 11 defaultLODConfig site_view)))) = [] \<and>
   totalResources (getResourceStats (reg (snd (createLODForMesh box_targets lod_uuids 11 defaultLODConfig site_view)))) = 0 \<and>
   totalResources (getResourceStats (reg (optimizer_dispose 1
       (snd (createLODForMesh box_targets lod_uuids 11 defaultLODConfig site_view))))) = 0 \<and>
   disposed (store (reg (optimizer_dispose 1
       (snd (createLODForMesh box_targets lod_uuids 11 defaultLODConfig site_view))))) = {}"
  by (simp add: site_lod_levels site_lod_variant getResourceStats_def createLOD_rm createLOD_disposed
      optimizer_dispose_rm optimizer_dispose_disposed site_view_registry new_manager_def)

theorem lod_variants_bypass_registry_witness:
  "rm (reg (snd (createLODForMesh box_targets lod_uuids 11 defaultLODConfig site_view))) = new_manager \<and>
   disposed (store (reg (snd (createLODForMesh box_targets lod_uuids 11 defaultLODConfig site_view)))) = {} \<and>
   rm (reg (optimizer_dispose 1 (snd (createLODForMesh box_targets lod_uuids 11 defaultLODConfig site_view)))) = new_manager \<and>
   lodObjects (optimizer (optimizer_dispose 1 (snd (createLODForMesh box_targets lod_uuids 11 defaultLODConfig site_view)))) = [] \<and>
   renderer (optimizer site_slow)
     = Some \<lparr>pixelRatio = 1, shadowMapEnabled = False, shadowMapSoft = True,
              frustumCulled = True, sortObjects = True\<rparr> \<and>
   detached_renderer (optimizer_dispose 1 site_slow)
     = Some \<lparr>pixelRatio = 1, shadowMapEnabled = True, shadowMapSoft = True,
              frustumCulled = True, sortObjects = True\<rparr> \<and>
   opt_scene (optimizer site_slow) = Some 10 \<and>
   12 \<in> set (traverse_all (store (reg site_slow)) 10) \<and>
   \<not> is_visible (store (reg site_slow)) 12 \<and>
   is_visible (store (reg (optimizer_dispose 1 site_slow))) 12"
proof -
  note a = lod_variants_bypass_registry[of box_targets lod_uuids 11 defaultLODConfig site_view 1]
  note b = lod_variants_bypass_registry[of box_targets lod_uuids 11 defaultLODConfig
       "snd (createLODForMesh box_targets lod_uuids 11 defaultLODConfig site_view)" 1]
  note c = lod_variants_bypass_registry[of box_targets lod_uuids 11 defaultLODConfig site_slow 1]
  have reg: "rm (reg (snd (createLODForMesh box_targets lod_uuids 11 defaultLODConfig site_view))) = new_manager \<and>
   disposed (store (reg (snd (createLODForMesh box_targets lod_uuids 11 defaultLODConfig site_view)))) = {} \<and>
   rm (reg (optimizer_dispose 1 (snd (createLODForMesh box_targets lod_uuids 11 defaultLODConfig site_view)))) = new_manager \<and>
   lodObjects (optimizer (optimizer_dispose 1 (snd (createLODForMesh box_targets lod_uuids 11 defaultLODConfig site_view)))) = []"
    using a b by (simp add: site_view_registry)
  have t: "12 \<in> set (traverse_all (store (reg site_slow)) 10)"
    by (simp add: site_slow_facts(3) site_running_traverse)
  have h: "\<not> is_visible (store (reg site_slow)) 12"
    by (simp add: site_slow_facts(3) site_running_hidden)
  note c5 = conjunct2[OF conjunct2[OF conjunct2[OF conjunct2[OF conjunct2[OF c]]]]]
  note c11 = conjunct2[OF conjunct2[OF conjunct2[OF conjunct2[OF conjunct2[OF conjunct2[OF c5]]]]]]
  from conjunct1[OF c11] site_slow_facts(1)
  have d: "detached_renderer (optimizer_dispose 1 site_slow)
     = Some \<lparr>pixelRatio = 1, shadowMapEnabled = True, shadowMapSoft = True,
              frustumCulled = True, sortObjects = True\<rparr>"
    by simp
  from conjunct2[OF c11] site_slow_facts(2) t
  have v: "is_visible (store (reg (optimizer_dispose 1 site_slow))) 12"
    by blast
  from reg site_slow_facts(1) d site_slow_facts(2) t h v show ?thesis
    by (intro conjI) blast+
qed

section \<open>Mesh disposal and the records of its parts\<close>

lemma site_running_registry:
  "resources (rm (reg site_running)) =
     [(''mesh_m11'', \<lparr>res_id = ''mesh_m11'', res_type = RMesh, res_size = 512, createdAt = 0, lastUsed = 0, refCount = 1\<rparr>),
      (''geo_g14'', \<lparr>res_id = ''geo_g14'', res_type = RGeometry, res_size = 300, createdAt = 0, lastUsed = 0, refCount = 1\<rparr>),
      (''mat_m11_0'', \<lparr>res_id = ''mat_m11_0'', res_type = RMaterial, res_size = 1024, createdAt = 0, lastUsed = 0, refCount = 1\<rparr>),
      (''mesh_m12'', \<lparr>res_id = ''mesh_m12'', res_type = RMesh, res_size = 512, createdAt = 0, lastUsed = 0, refCount = 1\<rparr>),
      (''geo_g15'', \<lparr>res_id = ''geo_g15'', res_type = RGeometry, res_size = 300, createdAt = 0, lastUsed = 0, refCount = 1\<rparr>),
      (''mat_m12_0'', \<lparr>res_id = ''mat_m12_0'', res_type = RMaterial, res_size = 1024, createdAt = 0, lastUsed = 0, refCount = 1\<rparr>),
      (''mesh_m13'', \<lparr>res_id = ''mesh_m13'', res_type = RMesh, res_size = 512, createdAt = 0, lastUsed = 0, refCount = 1\<rparr>),
      (''geo_g16'', \<lparr>res_id = ''geo_g16'', res_type = RGeometry, res_size = 300, createdAt = 0, lastUsed = 0, refCount = 1\<rparr>),
      (''mat_m13_0'', \<lparr>res_id = ''mat_m13_0'', res_type = RMaterial, res_size = 1024, createdAt = 0, lastUsed = 0, refCount = 1\<rparr>)]"
  "resourceObjects (rm (reg site_running)) =
     [(''mesh_m11'', 11), (''geo_g14'', 14), (''mat_m11_0'', 17), (''mesh_m12'', 12), (''geo_g15'', 15),
      (''mat_m12_0'', 17), (''mesh_m13'', 13), (''geo_g16'', 16), (''mat_m13_0'', 17)]"
  by (simp_all add: site_running_def startLoads_def site_view_loader site_view_store site_queue_def new_loader_def
      default_loading_options_def loadChunk_def loadChunk_begin_def loadChunk_complete_def
      chunk_delay_def set_add_def set_delete_def Let_def registerMesh_def registerResource_def
      site_nodes set_visible_def node_of_set_node mesh_node_def plain_node_def material_refs_def
      site_store_def node_of_def set_node_def estimateResourceSize_def geometry_bytes_def
      attribute_bytes_def index_byteLength_def box_geometry_def show_nat_small new_manager_def
      site_view_registry)

text \<open>
  Claim C10.  In a registry whose key list has no repetition (as the keys of a \<open>Map\<close>
  never have), disposing a registered mesh resource (forced, or with count 0) succeeds,
  calls \<open>dispose()\<close> on the mesh's geometry and on each of its materials, and removes
  exactly the mesh's own id from both maps: the record of every other id, in particular of
  the geometry and the materials when they are registered under ids of their own, is still
  returned by \<open>getResourceInfo\<close>, and the total count of the statistics drops by exactly 1.
\<close>

theorem mesh_disposal_keeps_child_records:
  assumes "distinct (map fst (resources (rm w)))"
    and "getResourceInfo w i = Some info" and "res_type info = RMesh"
    and "map_of (resourceObjects (rm w)) i = Some m"
    and "node_of (store w) m = Some n" and "obj_class n = MeshClass"
    and "force \<or> refCount info \<le> 0"
  shows "fst (disposeResource i force w) \<and>
         (\<forall>g. geometry n = Some g \<longrightarrow> g \<in> disposed (store (snd (disposeResource i force w)))) \<and>
         (\<forall>x \<in> set (material_refs (material n)). x \<in> disposed (store (snd (disposeResource i force w)))) \<and>
         resources (rm (snd (disposeResource i force w))) = AList.delete i (resources (rm w)) \<and>
         resourceObjects (rm (snd (disposeResource i force w))) = AList.delete i (resourceObjects (rm w)) \<and>
         getResourceInfo (snd (disposeResource i force w)) i = None \<and>
         (\<forall>j. j \<noteq> i \<longrightarrow> getResourceInfo (snd (disposeResource i force w)) j = getResourceInfo w j) \<and>
         totalResources (getResourceStats (snd (disposeResource i force w))) + 1
           = totalResources (getResourceStats w)"
proof -
  have mesh: "isMesh (store w) m" using assms(5,6) by (simp add: isMesh_def is_class_def)
  have s: "map_of (resources (rm w)) i = Some info" using assms(2) by (simp add: getResourceInfo_def)
  have eq: "disposeResource i force w =
     (True, w\<lparr>store := disposeMesh m (store w),
              rm := (rm w)\<lparr>resources := AList.delete i (resources (rm w)),
                            resourceObjects := AList.delete i (resourceObjects (rm w)),
                            disposalQueue := set_delete i (disposalQueue (rm w))\<rparr>\<rparr>)"
    using s assms(3,4,7) mesh by (auto simp: disposeResource_def teardown_def)
  have dd: "disposed (disposeMesh m (store w)) =
     (case geometry n of None \<Rightarrow> {} | Some g \<Rightarrow> {g}) \<union> set (material_refs (material n)) \<union> disposed (store w)"
    by (rule disposed_disposeMesh[OF assms(5)])
  have len: "Suc (length (AList.delete i (resources (rm w)))) = length (resources (rm w))"
    by (rule length_delete_present[OF assms(1) s])
  show ?thesis
    unfolding eq using dd len
    by (auto simp: getResourceInfo_def getResourceStats_def AList.delete_conv')
qed

theorem mesh_disposal_keeps_child_records_witness:
  "distinct (map fst (resources (rm (reg site_running)))) \<and>
   map_option res_type (getResourceInfo (reg site_running) ''mesh_m11'') = Some RMesh \<and>
   map_of (resourceObjects (rm (reg site_running))) ''mesh_m11'' = Some 11 \<and>
   fst (disposeResource ''mesh_m11'' True (reg site_running)) \<and>
   14 \<in> disposed (store (snd (disposeResource ''mesh_m11'' True (reg site_running)))) \<and>
   17 \<in> disposed (store (snd (disposeResource ''mesh_m11'' True (reg site_running)))) \<and>
   map_option res_type (getResourceInfo (snd (disposeResource ''mesh_m11'' True (reg site_running))) ''geo_g14'')
     = Some RGeometry \<and>
   map_option res_type (getResourceInfo (snd (disposeResource ''mesh_m11'' True (reg site_running))) ''mat_m11_0'')
     = Some RMaterial \<and>
   totalResources (getResourceStats (reg site_running)) = 9 \<and>
   totalResources (getResourceStats (snd (disposeResource ''mesh_m11'' True (reg site_running)))) = 8"
proof -
  let ?w = "reg site_running"
  let ?info = "\<lparr>res_id = ''mesh_m11'', res_type = RMesh, res_size = 512, createdAt = 0, lastUsed = 0,
                refCount = 1\<rparr>"
  let ?n = "mesh_node ''foundation-a'' ''m11'' 10 14 17"
  have k: "distinct (map fst (resources (rm ?w)))" by (simp add: site_running_registry)
  have a: "getResourceInfo ?w ''mesh_m11'' = Some ?info"
    by (simp add: site_running_registry getResourceInfo_def)
  have b: "res_type ?info = RMesh" by simp
  have c: "map_of (resourceObjects (rm ?w)) ''mesh_m11'' = Some 11" by (simp add: site_running_registry)
  have d: "node_of (store ?w) 11 = Some ?n" by (rule site_running_nodes(1))
  have e: "obj_class ?n = MeshClass" by (simp add: mesh_node_def)
  have f: "True \<or> refCount ?info \<le> 0" by simp
  have g: "geometry ?n = Some 14" and m: "material_refs (material ?n) = [17]"
    by (simp_all add: mesh_node_def material_refs_def)
  have t: "totalResources (getResourceStats ?w) = 9" by (simp add: site_running_registry getResourceStats_def)
  have o: "getResourceInfo ?w ''geo_g14'' = Some \<lparr>res_id = ''geo_g14'', res_type = RGeometry, res_size = 300,
              createdAt = 0, lastUsed = 0, refCount = 1\<rparr>"
     "getResourceInfo ?w ''mat_m11_0'' = Some \<lparr>res_id = ''mat_m11_0'', res_type = RMaterial, res_size = 1024,
              createdAt = 0, lastUsed = 0, refCount = 1\<rparr>"
    by (simp_all add: site_running_registry getResourceInfo_def)
  note th = mesh_disposal_keeps_child_records[OF k a b c d e f]
  have 1: "fst (disposeResource ''mesh_m11'' True ?w)" using th by blast
  have 2: "14 \<in> disposed (store (snd (disposeResource ''mesh_m11'' True ?w)))" using th g by blast
  have 3: "17 \<in> disposed (store (snd (disposeResource ''mesh_m11'' True ?w)))" using th m by simp
  have 4: "\<forall>j. j \<noteq> ''mesh_m11'' \<longrightarrow>
             getResourceInfo (snd (disposeResource ''mesh_m11'' True ?w)) j = getResourceInfo ?w j"
    using th by blast
  have 5: "getResourceInfo (snd (disposeResource ''mesh_m11'' True ?w)) ''geo_g14'' = getResourceInfo ?w ''geo_g14''"
    "getResourceInfo (snd (disposeResource ''mesh_m11'' True ?w)) ''mat_m11_0'' = getResourceInfo ?w ''mat_m11_0''"
    using 4 by simp_all
  have 6: "totalResources (getResourceStats (snd (disposeResource ''mesh_m11'' True ?w))) + 1
           = totalResources (getResourceStats ?w)" using th by blast
  show ?thesis using k a c 1 2 3 5 o t 6 by simp
qed

end
